theory Spec2Isabelle
  imports Complex_Main
begin

section \<open>StoX: casting tables, stage tree, checker, simulation and model files\<close>

text \<open>
  A shallow embedding of \<^verbatim>\<open>stox.h\<close> and \<^verbatim>\<open>stox.cpp\<close>.

  Conventions of the embedding.
  \<^item> C++ \<^verbatim>\<open>float\<close> values are binary32 numbers: every \<^verbatim>\<open>float\<close> addition, subtraction and
    multiplication of the source rounds its exact result to binary32 (to nearest, ties
    to even, with subnormal numbers, underflow to zero and overflow to infinity), the
    one \<^verbatim>\<open>double\<close> subtraction to binary64. The sign of a zero and the payload of a NaN
    are not represented.
  \<^item> An exception (\<^verbatim>\<open>std::out_of_range\<close> thrown by \<^verbatim>\<open>vector::at\<close>), a null pointer
    dereference and an unchecked access outside a vector end the program; they are the
    \<open>Inl\<close> results of the model.
  \<^item> Row and column counts are natural numbers; a negative count read from a file is a
    fault. Counts are not wrapped at 32 bits; the one signed overflow a text field can
    cause, \<^verbatim>\<open>Iters+3\<close>, is undefined behaviour.
  \<^item> Dialog answers, clipboard contents and text fields are arguments of the slot they
    belong to. Status bar messages and message box texts are not represented.
\<close>

datatype fault = OutOfRange | NullDeref | Undefined | LengthError | BadStream

subsection \<open>Single and double precision numbers\<close>

text \<open>
  A \<^verbatim>\<open>float\<close> or \<^verbatim>\<open>double\<close> value: a finite number, an infinity or a NaN. The two
  zeros are one value, \<open>Fin 0\<close>.
\<close>

datatype float = Fin real | PInf | MInf | NaN

definition pow2 :: "int \<Rightarrow> real" where
  "pow2 i = (if 0 \<le> i then 2 ^ nat i else 1 / 2 ^ nat (- i))"

text \<open>
  The binary exponent of \<open>a \<ge> 1\<close> (halving) and of \<open>a < 1\<close> (doubling), found in at most
  \<open>k\<close> steps.
\<close>

fun expUp :: "nat \<Rightarrow> real \<Rightarrow> int" where
  "expUp k x = (if k = 0 \<or> x < 2 then 0 else expUp (k - 1) (x / 2) + 1)"

fun expDown :: "nat \<Rightarrow> real \<Rightarrow> int" where
  "expDown k x = (if k = 0 \<or> 1 \<le> x then 0 else expDown (k - 1) (x * 2) - 1)"

declare expUp.simps [simp del] expDown.simps [simp del]

text \<open>
  The exponent of a positive number in a format with exponents \<open>emin .. emax\<close>: numbers
  below \<open>2 ^ emin\<close> are subnormal and share the exponent \<open>emin\<close>.
\<close>

definition exponent :: "int \<Rightarrow> int \<Rightarrow> real \<Rightarrow> int" where
  "exponent emin emax a =
     (if a < pow2 emin then emin
      else if 1 \<le> a then expUp (nat emax) a
      else expDown (nat (- emin)) a)"

text \<open>Rounding to the nearest integer, ties to the even one.\<close>

definition roundEven :: "real \<Rightarrow> int" where
  "roundEven q =
     (if q - of_int \<lfloor>q\<rfloor> < 1 / 2 then \<lfloor>q\<rfloor>
      else if 1 / 2 < q - of_int \<lfloor>q\<rfloor> then \<lfloor>q\<rfloor> + 1
      else if even \<lfloor>q\<rfloor> then \<lfloor>q\<rfloor> else \<lfloor>q\<rfloor> + 1)"

text \<open>The nearest multiple of \<open>2 ^ q\<close>.\<close>

definition onGrid :: "int \<Rightarrow> real \<Rightarrow> real" where
  "onGrid q a = of_int (roundEven (a / pow2 q)) * pow2 q"

text \<open>The rounded magnitude \<open>y\<close> with the sign of \<open>x\<close>; an infinity from \<open>2 ^ (emax + 1)\<close> on.\<close>

definition signed :: "int \<Rightarrow> real \<Rightarrow> real \<Rightarrow> float" where
  "signed emax x y =
     (if pow2 (emax + 1) \<le> y then (if 0 < x then PInf else MInf)
      else Fin (if 0 < x then y else - y))"

text \<open>
  Rounding a real number to the format with \<open>p\<close> significant bits and exponents
  \<open>emin .. emax\<close>, to nearest, ties to even: \<open>rnd32\<close> for \<^verbatim>\<open>float\<close> and \<open>rnd64\<close> for
  \<^verbatim>\<open>double\<close>.
\<close>

definition rnd :: "nat \<Rightarrow> int \<Rightarrow> int \<Rightarrow> real \<Rightarrow> float" where
  "rnd p emin emax x =
     (if x = 0 then Fin 0
      else signed emax x (onGrid (exponent emin emax \<bar>x\<bar> - int p + 1) \<bar>x\<bar>))"

definition rnd32 :: "real \<Rightarrow> float" where
  "rnd32 = rnd 24 (- 126) 127"

definition rnd64 :: "real \<Rightarrow> float" where
  "rnd64 = rnd 53 (- 1022) 1023"

text \<open>
  \<open>QString::toFloat\<close> of a decimal text with the value \<open>x\<close>: the text is converted to
  \<^verbatim>\<open>double\<close> and the \<^verbatim>\<open>double\<close> to \<^verbatim>\<open>float\<close>.
\<close>

definition textToFloat :: "real \<Rightarrow> float" where
  "textToFloat x = (case rnd64 x of Fin y \<Rightarrow> rnd32 y | PInf \<Rightarrow> PInf | MInf \<Rightarrow> MInf | NaN \<Rightarrow> NaN)"

text \<open>
  The arithmetic: the exact result of finite operands is rounded by \<open>R\<close>; the rules for
  infinities and NaN are those of IEEE 754.
\<close>

fun fneg :: "float \<Rightarrow> float" where
  "fneg (Fin x) = Fin (- x)"
| "fneg PInf = MInf"
| "fneg MInf = PInf"
| "fneg NaN = NaN"

fun fabs :: "float \<Rightarrow> float" where
  "fabs (Fin x) = Fin \<bar>x\<bar>"
| "fabs PInf = PInf"
| "fabs MInf = PInf"
| "fabs NaN = NaN"

fun addWith :: "(real \<Rightarrow> float) \<Rightarrow> float \<Rightarrow> float \<Rightarrow> float" where
  "addWith R (Fin x) (Fin y) = R (x + y)"
| "addWith R NaN b = NaN"
| "addWith R a NaN = NaN"
| "addWith R PInf MInf = NaN"
| "addWith R MInf PInf = NaN"
| "addWith R PInf b = PInf"
| "addWith R a PInf = PInf"
| "addWith R MInf b = MInf"
| "addWith R a MInf = MInf"

fun mulWith :: "(real \<Rightarrow> float) \<Rightarrow> float \<Rightarrow> float \<Rightarrow> float" where
  "mulWith R (Fin x) (Fin y) = R (x * y)"
| "mulWith R NaN b = NaN"
| "mulWith R a NaN = NaN"
| "mulWith R (Fin x) PInf = (if x = 0 then NaN else if 0 < x then PInf else MInf)"
| "mulWith R (Fin x) MInf = (if x = 0 then NaN else if 0 < x then MInf else PInf)"
| "mulWith R PInf (Fin y) = (if y = 0 then NaN else if 0 < y then PInf else MInf)"
| "mulWith R MInf (Fin y) = (if y = 0 then NaN else if 0 < y then MInf else PInf)"
| "mulWith R PInf PInf = PInf"
| "mulWith R PInf MInf = MInf"
| "mulWith R MInf PInf = MInf"
| "mulWith R MInf MInf = PInf"

text \<open>The \<^verbatim>\<open>float\<close> operations of the source, and the one \<^verbatim>\<open>double\<close> subtraction.\<close>

definition fadd :: "float \<Rightarrow> float \<Rightarrow> float" where
  "fadd a b = addWith rnd32 a b"

definition fsub :: "float \<Rightarrow> float \<Rightarrow> float" where
  "fsub a b = addWith rnd32 a (fneg b)"

definition fmul :: "float \<Rightarrow> float \<Rightarrow> float" where
  "fmul a b = mulWith rnd32 a b"

definition dsub :: "float \<Rightarrow> float \<Rightarrow> float" where
  "dsub a b = addWith rnd64 a (fneg b)"

text \<open>Comparisons: exact, and false when an operand is a NaN.\<close>

fun flt :: "float \<Rightarrow> float \<Rightarrow> bool" where
  "flt (Fin x) (Fin y) = (x < y)"
| "flt NaN b = False"
| "flt a NaN = False"
| "flt a MInf = False"
| "flt MInf b = True"
| "flt PInf b = False"
| "flt a PInf = True"

definition fgt :: "float \<Rightarrow> float \<Rightarrow> bool" where
  "fgt a b = flt b a"

text \<open>A value in \<open>[0, 1]\<close>.\<close>

fun inUnit :: "float \<Rightarrow> bool" where
  "inUnit (Fin x) = (0 \<le> x \<and> x \<le> 1)"
| "inUnit PInf = False"
| "inUnit MInf = False"
| "inUnit NaN = False"

subsection \<open>Casting tables (class TableModel)\<close>

record TableModel =
  rawdata :: "float list list"
  myrows :: nat
  mycols :: nat
  name :: string

text \<open>The constructor: always created empty.\<close>

definition TableModel_new :: TableModel where
  "TableModel_new = \<lparr>rawdata = [], myrows = 0, mycols = 0, name = ''''\<rparr>"

text \<open>
  \<^verbatim>\<open>for(auto&& r:rawdata) for(int c=0;c<cols;++c) r[c]=*raw++;\<close> consumes the buffer
  row by row.
\<close>

fun chop :: "nat \<Rightarrow> nat \<Rightarrow> float list \<Rightarrow> float list list" where
  "chop 0 cols raw = []"
| "chop (Suc rows) cols raw = take cols raw # chop rows cols (drop cols raw)"

text \<open>
  \<open>FillFromRaw\<close> keeps the name. The buffer is a list; reading past its end is a fault
  (both callers allocate exactly \<open>rows*cols\<close> floats). The values are stored as they come:
  nothing is clamped here.
\<close>

definition FillFromRaw :: "float list \<Rightarrow> nat \<Rightarrow> nat \<Rightarrow> TableModel \<Rightarrow> fault + TableModel" where
  "FillFromRaw raw rows cols t =
     (if length raw < rows * cols then Inl Undefined
      else Inr (t\<lparr>myrows := rows, mycols := cols, rawdata := chop rows cols raw\<rparr>))"

definition FillZeroes :: "nat \<Rightarrow> nat \<Rightarrow> string \<Rightarrow> TableModel \<Rightarrow> TableModel" where
  "FillZeroes rows cols nam t =
     t\<lparr>name := nam, myrows := rows, mycols := cols,
       rawdata := replicate rows (replicate cols (Fin 0))\<rparr>"

definition readCols :: "TableModel \<Rightarrow> nat" where
  "readCols t = mycols t"

definition readRows :: "TableModel \<Rightarrow> nat" where
  "readRows t = myrows t"

definition readName :: "TableModel \<Rightarrow> string" where
  "readName t = name t"

definition setName :: "string \<Rightarrow> TableModel \<Rightarrow> TableModel" where
  "setName nam t = t\<lparr>name := nam\<rparr>"

text \<open>\<^verbatim>\<open>rawdata.at(r).at(c)\<close>: both accesses are checked against the vectors' sizes.\<close>

definition readCell :: "TableModel \<Rightarrow> nat \<Rightarrow> nat \<Rightarrow> fault + float" where
  "readCell t r c =
     (if r < length (rawdata t) then
        (if c < length (rawdata t ! r) then Inr (rawdata t ! r ! c) else Inl OutOfRange)
      else Inl OutOfRange)"

text \<open>
  \<^verbatim>\<open>std::accumulate(row.begin(),row.end(),0.0f)\<close> adds the cells from the left in
  \<^verbatim>\<open>float\<close>; the row access is unchecked.
\<close>

definition sumCols :: "TableModel \<Rightarrow> nat \<Rightarrow> fault + float" where
  "sumCols t irow =
     (if irow < length (rawdata t) then Inr (foldl fadd (Fin 0) (rawdata t ! irow))
      else Inl Undefined)"

text \<open>
  The loops of \<open>FillFromCopy\<close> read the source with \<open>readCell\<close>, one row after the other.
\<close>

fun readRowCells :: "TableModel \<Rightarrow> nat \<Rightarrow> nat list \<Rightarrow> fault + float list" where
  "readRowCells t r [] = Inr []"
| "readRowCells t r (c # cs) =
     (case readCell t r c of
        Inl e \<Rightarrow> Inl e
      | Inr v \<Rightarrow> (case readRowCells t r cs of Inl e \<Rightarrow> Inl e | Inr vs \<Rightarrow> Inr (v # vs)))"

fun readAllCells :: "TableModel \<Rightarrow> nat list \<Rightarrow> nat \<Rightarrow> fault + float list list" where
  "readAllCells t [] cols = Inr []"
| "readAllCells t (r # rs) cols =
     (case readRowCells t r [0..<cols] of
        Inl e \<Rightarrow> Inl e
      | Inr vs \<Rightarrow> (case readAllCells t rs cols of Inl e \<Rightarrow> Inl e | Inr vss \<Rightarrow> Inr (vs # vss)))"

definition FillFromCopy :: "TableModel \<Rightarrow> string \<Rightarrow> TableModel \<Rightarrow> fault + TableModel" where
  "FillFromCopy source nam t =
     (case readAllCells source [0..<readRows source] (readCols source) of
        Inl e \<Rightarrow> Inl e
      | Inr vss \<Rightarrow>
          Inr (t\<lparr>name := nam, myrows := readRows source, mycols := readCols source,
                 rawdata := vss\<rparr>))"

datatype role = EditRole | DisplayRole | TextAlignmentRole

text \<open>
  \<open>setData\<close>, the only write path of the table view. The model index is the pair
  \<open>(r, c)\<close>; it is valid when it lies inside \<open>myrows \<times> mycols\<close>. \<open>v\<close> is
  \<^verbatim>\<open>value.toFloat()\<close>. The accesses \<^verbatim>\<open>rawdata[index.row()]\<close> and
  \<^verbatim>\<open>row[index.column()]\<close> are unchecked.
  \<^verbatim>\<open>std::accumulate(row.begin(),row.end(),-pos)\<close> starts from \<open>-pos\<close> and adds every
  cell of the row from the left, the written one included, each addition in \<^verbatim>\<open>float\<close>;
  \<^verbatim>\<open>if(sum+val>1.0f) val=1.0f-sum;\<close> adds, compares and subtracts in \<^verbatim>\<open>float\<close>.
\<close>

definition setData :: "TableModel \<Rightarrow> nat \<Rightarrow> nat \<Rightarrow> float \<Rightarrow> role \<Rightarrow> fault + (TableModel \<times> bool)" where
  "setData t r c v rl =
     (if (r < myrows t \<and> c < mycols t) \<and> rl = EditRole then
        (if r < length (rawdata t) \<and> c < length (rawdata t ! r) then
           (let val1 = (if flt v (Fin 0) then Fin 0 else if fgt v (Fin 1) then Fin 1 else v);
                row = rawdata t ! r;
                pos = row ! c;
                sum = foldl fadd (fneg pos) row;
                val2 = (if fgt (fadd sum val1) (Fin 1) then fsub (Fin 1) sum else val1)
            in Inr (t\<lparr>rawdata := (rawdata t)[r := row[c := val2]]\<rparr>, True))
         else Inl Undefined)
      else Inr (t, False))"

text \<open>A sequence of edits of one table through the view, stopping at a fault.\<close>

fun setDataSeq :: "TableModel \<Rightarrow> (nat \<times> nat \<times> float) list \<Rightarrow> fault + TableModel" where
  "setDataSeq t [] = Inr t"
| "setDataSeq t ((r, c, v) # ws) =
     (case setData t r c v EditRole of
        Inl e \<Rightarrow> Inl e
      | Inr (t', b) \<Rightarrow> setDataSeq t' ws)"

text \<open>The shape every filled table has: \<open>myrows\<close> rows of \<open>mycols\<close> cells.\<close>

definition table_wf :: "TableModel \<Rightarrow> bool" where
  "table_wf t \<longleftrightarrow>
     length (rawdata t) = myrows t \<and> list_all (\<lambda>row. length row = mycols t) (rawdata t)"

text \<open>The cell \<open>(r, c)\<close> can be read and holds a value in \<open>[0, 1]\<close>.\<close>

definition cell_in_unit :: "TableModel \<Rightarrow> nat \<Rightarrow> nat \<Rightarrow> bool" where
  "cell_in_unit t r c \<longleftrightarrow> (case readCell t r c of Inl e \<Rightarrow> False | Inr x \<Rightarrow> inUnit x)"

subsection \<open>The stage tree (QTreeWidget, QTreeWidgetItem)\<close>

text \<open>
  The data of a tree item: column 0 is the stage name, column 1 the casting (a reserved
  kind or the name of a casting table), column 2 the report check mark, column 3 the
  hierarchical ID; \<open>userdata\<close> is \<^verbatim>\<open>data(0,Qt::UserRole)\<close>, the population received in the
  last run (unset on a fresh item).
\<close>

record columns =
  text0 :: string
  text1 :: string
  check2 :: bool
  text3 :: string
  userdata :: "float option"

datatype QTreeWidgetItem = Item columns "QTreeWidgetItem list"

fun itemData :: "QTreeWidgetItem \<Rightarrow> columns" where
  "itemData (Item d cs) = d"

fun children :: "QTreeWidgetItem \<Rightarrow> QTreeWidgetItem list" where
  "children (Item d cs) = cs"

definition childCount :: "QTreeWidgetItem \<Rightarrow> nat" where
  "childCount it = length (children it)"

text \<open>\<^verbatim>\<open>new QTreeWidgetItem(nullptr, QStringList() << "Start")\<close>\<close>

definition StartItem :: QTreeWidgetItem where
  "StartItem = Item \<lparr>text0 = ''Start'', text1 = [], check2 = False, text3 = [],
                     userdata = None\<rparr> []"

text \<open>\<open>QTreeWidgetItemIterator\<close> visits every item of the widget in pre-order.\<close>

fun allItems :: "QTreeWidgetItem \<Rightarrow> QTreeWidgetItem list" where
  "allItems (Item d cs) = Item d cs # concat (map allItems cs)"

definition iterate :: "QTreeWidgetItem list \<Rightarrow> QTreeWidgetItem list" where
  "iterate tw = concat (map allItems tw)"

fun mapItems :: "(columns \<Rightarrow> columns) \<Rightarrow> QTreeWidgetItem \<Rightarrow> QTreeWidgetItem" where
  "mapItems f (Item d cs) = Item (f d) (map (mapItems f) cs)"

text \<open>\<open>QString::number\<close> of a non-negative integer.\<close>

fun number :: "nat \<Rightarrow> string" where
  "number n =
     (if n < 10 then [''0123456789'' ! n]
      else number (n div 10) @ [''0123456789'' ! (n mod 10)])"

declare number.simps [simp del]

subsection \<open>Temporary node data of save and open (class NodeData)\<close>

record NodeData =
  level :: int
  item :: QTreeWidgetItem

subsection \<open>The output table (class OutTableModel)\<close>

text \<open>
  The cells are strings in the source. The model keeps what was formatted instead of
  the characters: a text, \<open>QString::number\<close> of a float, the iteration number
  (\<^verbatim>\<open>arg(i,4)\<close>) and a population (\<^verbatim>\<open>arg(x,10,'f',3)\<close>). The members \<open>rawdata\<close>,
  \<open>myrows\<close> and \<open>mycols\<close> are named apart from those of \<open>TableModel\<close>.
\<close>

datatype outcell = Blank | Txt string | Num float | IterNo int | Pop float

record OutTableModel =
  outdata :: "outcell list list"
  outrows :: nat
  outcols :: nat

definition Init :: "nat \<Rightarrow> nat \<Rightarrow> OutTableModel" where
  "Init rows cols = \<lparr>outdata = replicate rows (replicate cols Blank), outrows = rows,
                      outcols = cols\<rparr>"

definition setCell :: "OutTableModel \<Rightarrow> nat \<Rightarrow> nat \<Rightarrow> outcell \<Rightarrow> fault + OutTableModel" where
  "setCell out r c v =
     (if r < length (outdata out) then
        (if c < length (outdata out ! r)
         then Inr (out\<lparr>outdata := (outdata out)[r := (outdata out ! r)[c := v]]\<rparr>)
         else Inl OutOfRange)
      else Inl OutOfRange)"

subsection \<open>The main window (class Stox)\<close>

text \<open>
  The pseudorandom generator is a supply of raw values, one taken per draw.
  \<^verbatim>\<open>std::uniform_int_distribution<int> distr(0,r-1)\<close> returns a value of \<open>[0, r-1]\<close>;
  which one is decided by the supply, so every behaviour of the generator is covered.
\<close>

type_synonym gen = "nat \<Rightarrow> nat"

definition distr :: "gen \<Rightarrow> nat \<Rightarrow> nat \<times> gen" where
  "distr g r = (g 0 mod r, \<lambda>i. g (Suc i))"

text \<open>A model file is the sequence of values written to the \<open>QDataStream\<close>.\<close>

datatype token = TInt int | TString string | TFloat float | TItem columns

text \<open>
  The members of \<open>Stox\<close> and the parts of the user interface the slots read:
  \<open>hasCurrent\<close> says whether \<^verbatim>\<open>ui->TreeWid->currentItem()\<close> is non-null, \<open>CBCastings\<close>
  holds the entries of the casting combo box (their display order is not represented),
  \<open>ENewCastName\<close> the text of the name field, \<open>files\<close> the model files on disk.
  \<open>DumpList\<close> is cleared before each use and is a local value of the model.
\<close>

record Stox =
  TreeWid :: "QTreeWidgetItem list"
  hasCurrent :: bool
  Tables :: "TableModel list"
  NumTables :: int
  Output :: "OutTableModel option"
  Checked :: bool
  Saved :: bool
  FileName :: string
  Eps :: float
  GoOn :: bool
  CloneMode :: bool
  generator :: gen
  CBCastings :: "string list"
  ENewCastName :: string
  files :: "string \<Rightarrow> token list option"

datatype button = Yes | No | Cancel

text \<open>What the user and the environment answer while a slot runs.\<close>

record ui =
  saveBox :: button
  saveAsName :: string
  canWrite :: bool
  checkBox :: button
  warnBox :: "nat \<Rightarrow> button"
  openName :: string
  EInitial :: float
  EIters :: int
  EEps :: float
  cancelClicked :: "nat \<Rightarrow> bool"
  clipboard :: "string option"
  parser :: "string \<Rightarrow> nat \<Rightarrow> float"

definition TypeNames :: "string list" where
  "TypeNames = [''Direct'', ''Caster'', ''Success'', ''Sink'']"

definition setChecked :: "bool \<Rightarrow> Stox \<Rightarrow> Stox" where
  "setChecked stat s = (if Checked s \<noteq> stat then s\<lparr>Checked := stat\<rparr> else s)"

definition setSaved :: "bool \<Rightarrow> Stox \<Rightarrow> Stox" where
  "setSaved stat s = s\<lparr>Saved := stat\<rparr>"

text \<open>
  The state the constructor leaves (\<open>Eps\<close> is not initialised by the constructor and is
  written by every run before it is read).
\<close>

definition Stox_new :: "gen \<Rightarrow> Stox" where
  "Stox_new g =
     \<lparr>TreeWid = [StartItem], hasCurrent = False, Tables = [], NumTables = 0, Output = None,
      Checked = False, Saved = True, FileName = [], Eps = Fin 0, GoOn = False,
      CloneMode = False, generator = g, CBCastings = [], ENewCastName = [],
      files = (\<lambda>f. None)\<rparr>"

subsection \<open>Hierarchical IDs (IDMarkTree)\<close>

text \<open>
  The iterator reaches a stage after its parent, so the ID a stage hands to its children
  is the one its parent gave it: the children of a stage with ID \<open>idp\<close> get
  \<open>idp.1\<close>, \<open>idp.2\<close>, ... and hand them on. \<open>k\<close> is the 1-based sibling index.
\<close>

fun markList :: "string \<Rightarrow> nat \<Rightarrow> QTreeWidgetItem list \<Rightarrow> QTreeWidgetItem list" where
  "markList idp k [] = []"
| "markList idp k (Item d cs # rest) =
     Item (d\<lparr>text3 := idp @ ''.'' @ number k\<rparr>) (markList (idp @ ''.'' @ number k) 1 cs)
       # markList idp (Suc k) rest"

fun markBelow :: "QTreeWidgetItem \<Rightarrow> QTreeWidgetItem" where
  "markBelow (Item d cs) = Item d (markList (text3 d) 1 cs)"

text \<open>
  \<^verbatim>\<open>(*it)->setText(3,"1")\<close> dereferences the first item: a null pointer when the widget
  is empty. Only the first top-level item is set to \<open>1\<close>.
\<close>

definition IDMarkTree :: "Stox \<Rightarrow> fault + Stox" where
  "IDMarkTree s =
     (case TreeWid s of
        [] \<Rightarrow> Inl NullDeref
      | Item d cs # rest \<Rightarrow>
          Inr (s\<lparr>TreeWid := markBelow (Item (d\<lparr>text3 := ''1''\<rparr>) cs) # map markBelow rest\<rparr>))"

subsection \<open>The consistency check (on_actionCheck_triggered)\<close>

text \<open>
  The outcomes of the check, one per message of the source: a replication is pending;
  the three critical boxes of the structural pass with the stage name and ID (the last
  one with the number of following stages, the casting and its columns); a row sum
  warning answered with Cancel; the two final status messages.
\<close>

datatype check_msg =
    ReplicationInProcess
  | NoFollowingStages string string
  | OneFollowingStage string string
  | NoCastingSet string string
  | ColumnMismatch string string nat string nat
  | CheckCancelled
  | Consistent
  | Workable nat

text \<open>
  The structural loop over the items the iterator yields; \<open>None\<close> when it runs to the
  end. The inner loop over \<open>Tables\<close> stops at the first table with the casting's name;
  when no table has that name the loop ends and the next stage is inspected.
\<close>

fun checkStages :: "TableModel list \<Rightarrow> QTreeWidgetItem list \<Rightarrow> check_msg option" where
  "checkStages tabs [] = None"
| "checkStages tabs (Item d cs # its) =
     (let n = length cs; Casting = text1 d in
      if n = 0 then
        (if Casting \<noteq> ''Success'' \<and> Casting \<noteq> ''Sink''
         then Some (NoFollowingStages (text0 d) (text3 d))
         else checkStages tabs its)
      else if n = 1 then
        (if Casting \<noteq> ''Direct''
         then Some (OneFollowingStage (text0 d) (text3 d))
         else checkStages tabs its)
      else
        (if Casting = ''Direct'' \<or> Casting = ''Success'' \<or> Casting = ''Sink''
         then Some (NoCastingSet (text0 d) (text3 d))
         else
           (case find (\<lambda>t. readName t = Casting) tabs of
              Some t \<Rightarrow>
                (if readCols t \<noteq> n
                 then Some (ColumnMismatch (text0 d) (text3 d) n Casting (readCols t))
                 else checkStages tabs its)
            | None \<Rightarrow> checkStages tabs its)))"

text \<open>
  The warning loops. \<open>w\<close> counts the warnings so far; the \<open>w\<close>-th warning box is
  answered by \<open>warnBox u w\<close>. \<open>None\<close>: the user left the check.
  \<^verbatim>\<open>fabs(1.0-sum)>0.001\<close> is computed in \<^verbatim>\<open>double\<close>: the sum is converted exactly, the
  difference is rounded to binary64 and compared with the \<^verbatim>\<open>double\<close> nearest to 0.001.
\<close>

fun warnRows :: "ui \<Rightarrow> TableModel \<Rightarrow> nat list \<Rightarrow> nat \<Rightarrow> fault + nat option" where
  "warnRows u t [] w = Inr (Some w)"
| "warnRows u t (r # rs) w =
     (case sumCols t r of
        Inl e \<Rightarrow> Inl e
      | Inr rsum \<Rightarrow>
          (if fgt (fabs (dsub (Fin 1) rsum)) (rnd64 (1 / 1000)) then
             (if warnBox u w \<noteq> Yes then Inr None else warnRows u t rs (Suc w))
           else warnRows u t rs w))"

fun warnTables :: "ui \<Rightarrow> TableModel list \<Rightarrow> nat \<Rightarrow> fault + nat option" where
  "warnTables u [] w = Inr (Some w)"
| "warnTables u (t # ts) w =
     (case warnRows u t [0..<readRows t] w of
        Inl e \<Rightarrow> Inl e
      | Inr None \<Rightarrow> Inr None
      | Inr (Some w') \<Rightarrow> warnTables u ts w')"

text \<open>
  On a structural error the source first deselects the current item:
  \<^verbatim>\<open>ui->TreeWid->currentItem()->setSelected(false)\<close>, a null pointer when there is none.
\<close>

definition on_actionCheck_triggered :: "ui \<Rightarrow> Stox \<Rightarrow> fault + (Stox \<times> check_msg)" where
  "on_actionCheck_triggered u s =
     (if CloneMode s then Inr (s, ReplicationInProcess)
      else
        (case IDMarkTree (setChecked False s) of
           Inl e \<Rightarrow> Inl e
         | Inr s1 \<Rightarrow>
             (case checkStages (Tables s1) (iterate (TreeWid s1)) of
                Some m \<Rightarrow> (if hasCurrent s1 then Inr (s1, m) else Inl NullDeref)
              | None \<Rightarrow>
                  (case warnTables u (Tables s1) 0 of
                     Inl e \<Rightarrow> Inl e
                   | Inr None \<Rightarrow> Inr (s1, CheckCancelled)
                   | Inr (Some w) \<Rightarrow>
                       Inr (setChecked True s1, if w = 0 then Consistent else Workable w)))))"

subsection \<open>Casting a population down the tree (Cast)\<close>

text \<open>
  \<open>Cast\<close> returns the node with the populations recorded in it and below it, and the
  generator. \<open>CastChildren\<close> is the loop \<^verbatim>\<open>for(int c=0;c<node.childCount();++c)\<close> from
  child \<open>c\<close> on, with the located table \<open>t\<close> and the row \<open>r\<close>.
  \<^verbatim>\<open>Cast(*node.child(0),n)\<close> of a Direct stage dereferences a null pointer when the stage
  has no child. \<^verbatim>\<open>n*(f>0.0?f:Eps)\<close> compares exactly and multiplies in \<^verbatim>\<open>float\<close>.
\<close>

fun Cast :: "TableModel list \<Rightarrow> float \<Rightarrow> QTreeWidgetItem \<Rightarrow> float \<Rightarrow> gen
               \<Rightarrow> fault + (QTreeWidgetItem \<times> gen)"
and CastChildren :: "TableModel list \<Rightarrow> float \<Rightarrow> TableModel \<Rightarrow> nat \<Rightarrow> float \<Rightarrow> nat
               \<Rightarrow> QTreeWidgetItem list \<Rightarrow> gen \<Rightarrow> fault + (QTreeWidgetItem list \<times> gen)" where
  "Cast tabs eps (Item d cs) n g =
     (let d' = d\<lparr>userdata := Some n\<rparr> in
      if text1 d = ''Success'' \<or> text1 d = ''Sink'' then Inr (Item d' cs, g)
      else if text1 d = ''Direct'' then
        (case cs of
           [] \<Rightarrow> Inl NullDeref
         | ch # rest \<Rightarrow>
             (case Cast tabs eps ch n g of
                Inl e \<Rightarrow> Inl e
              | Inr (ch', g') \<Rightarrow> Inr (Item d' (ch' # rest), g')))
      else
        (case find (\<lambda>t. readName t = text1 d) tabs of
           None \<Rightarrow> Inr (Item d' cs, g)
         | Some t \<Rightarrow>
             (let r0 = readRows t;
                  (r, g1) = (if r0 > 1 then distr g r0 else (r0, g))
              in case CastChildren tabs eps t r n 0 cs g1 of
                   Inl e \<Rightarrow> Inl e
                 | Inr (cs', g2) \<Rightarrow> Inr (Item d' cs', g2))))"
| "CastChildren tabs eps t r n c [] g = Inr ([], g)"
| "CastChildren tabs eps t r n c (ch # chs) g =
     (case readCell t r c of
        Inl e \<Rightarrow> Inl e
      | Inr f \<Rightarrow>
          (case Cast tabs eps ch (fmul n (if fgt f (Fin 0) then f else eps)) g of
             Inl e \<Rightarrow> Inl e
           | Inr (ch', g') \<Rightarrow>
               (case CastChildren tabs eps t r n (Suc c) chs g' of
                  Inl e \<Rightarrow> Inl e
                | Inr (chs', g'') \<Rightarrow> Inr (ch' # chs', g''))))"

subsection \<open>Report check marks (on_BShowAll_clicked and its siblings)\<close>

text \<open>
  The iterator is advanced once before the loop, so the first item keeps its mark; every
  other item gets the new one. None of the three slots touches \<open>Checked\<close> or \<open>Saved\<close>.
\<close>

definition afterFirst :: "(columns \<Rightarrow> columns) \<Rightarrow> QTreeWidgetItem list \<Rightarrow> QTreeWidgetItem list" where
  "afterFirst f tw =
     (case tw of
        [] \<Rightarrow> []
      | Item d cs # rest \<Rightarrow> Item d (map (mapItems f) cs) # map (mapItems f) rest)"

definition on_BShowAll_clicked :: "Stox \<Rightarrow> Stox" where
  "on_BShowAll_clicked s = s\<lparr>TreeWid := afterFirst (\<lambda>d. d\<lparr>check2 := True\<rparr>) (TreeWid s)\<rparr>"

definition on_BShowSuccess_clicked :: "Stox \<Rightarrow> Stox" where
  "on_BShowSuccess_clicked s =
     s\<lparr>TreeWid := afterFirst (\<lambda>d. d\<lparr>check2 := (text1 d = ''Success'')\<rparr>) (TreeWid s)\<rparr>"

definition on_BShowNone_clicked :: "Stox \<Rightarrow> Stox" where
  "on_BShowNone_clicked s = s\<lparr>TreeWid := afterFirst (\<lambda>d. d\<lparr>check2 := False\<rparr>) (TreeWid s)\<rparr>"

text \<open>
  Editing a cell in the table view calls \<open>setData\<close> of the table shown, here the
  \<open>k\<close>-th of \<open>Tables\<close>. \<open>TableModel\<close> has no reference to the window and the source
  connects \<open>dataChanged\<close> to nothing: the table is the only member that changes.
\<close>

definition editCell :: "Stox \<Rightarrow> nat \<Rightarrow> nat \<Rightarrow> nat \<Rightarrow> float \<Rightarrow> fault + Stox" where
  "editCell s k r c v =
     (if k < length (Tables s) then
        (case setData (Tables s ! k) r c v EditRole of
           Inl e \<Rightarrow> Inl e
         | Inr (t', b) \<Rightarrow> Inr (s\<lparr>Tables := (Tables s)[k := t']\<rparr>))
      else Inr s)"

subsection \<open>Creating castings (on_BNewTable_clicked, on_BPasteTable_clicked)\<close>

datatype table_msg = InputNewName | NotAllowedName | AlreadyExists | NotCompatible | Created

text \<open>\<open>rows\<close> and \<open>cols\<close> are the values of the two spin boxes.\<close>

definition on_BNewTable_clicked :: "nat \<Rightarrow> nat \<Rightarrow> Stox \<Rightarrow> Stox \<times> table_msg" where
  "on_BNewTable_clicked rows cols s =
     (if ENewCastName s = [] then (s, InputNewName)
      else
        (let nam = ENewCastName s in
         if nam \<in> set TypeNames then (s\<lparr>ENewCastName := []\<rparr>, NotAllowedName)
         else if nam \<in> set (CBCastings s) then (s\<lparr>ENewCastName := []\<rparr>, AlreadyExists)
         else
           (setSaved False (setChecked False
              (s\<lparr>ENewCastName := [],
                 Tables := Tables s @ [FillZeroes rows cols nam TableModel_new],
                 NumTables := NumTables s + 1,
                 CBCastings := CBCastings s @ [nam]\<rparr>)), Created)))"

text \<open>
  Pasting: the new empty table is appended to \<open>Tables\<close> and counted before the
  clipboard is looked at; both returns for an incompatible clipboard come after that.
  \<open>parser u source i\<close> is the \<open>i\<close>-th float \<open>QTextStream\<close> extracts from the text.
  \<^verbatim>\<open>c+=r; c/=r;\<close>
\<close>

definition on_BPasteTable_clicked :: "ui \<Rightarrow> Stox \<Rightarrow> fault + (Stox \<times> table_msg)" where
  "on_BPasteTable_clicked u s =
     (if ENewCastName s = [] then Inr (s, InputNewName)
      else
        (let nam = ENewCastName s in
         if nam \<in> set TypeNames then Inr (s\<lparr>ENewCastName := []\<rparr>, NotAllowedName)
         else if nam \<in> set (CBCastings s) then Inr (s\<lparr>ENewCastName := []\<rparr>, AlreadyExists)
         else
           (let s1 = s\<lparr>ENewCastName := [], Tables := Tables s @ [TableModel_new],
                      NumTables := NumTables s + 1\<rparr>
            in case clipboard u of
                 None \<Rightarrow> Inr (s1, NotCompatible)
               | Some source \<Rightarrow>
                   (let c = count_list source (CHR 0x09); r = count_list source (CHR 0x0A) in
                    if c < 2 \<or> r < 1 then Inr (s1, NotCompatible)
                    else
                      (let c' = (c + r) div r;
                           raw = map (parser u source) [0..<r * c']
                       in case FillFromRaw raw r c' TableModel_new of
                            Inl e \<Rightarrow> Inl e
                          | Inr t \<Rightarrow>
                              Inr (setSaved False (setChecked False
                                     (s1\<lparr>Tables := Tables s @ [setName nam t],
                                         CBCastings := CBCastings s @ [nam]\<rparr>)),
                                   Created))))))"

subsection \<open>Saving a model (Dump, on_actionSave_triggered)\<close>

text \<open>\<open>Dump\<close> appends the node with its level, then its children one level deeper.\<close>

fun Dump :: "QTreeWidgetItem \<Rightarrow> int \<Rightarrow> NodeData list" where
  "Dump (Item d cs) n =
     \<lparr>level = n, item = Item d cs\<rparr> # concat (map (\<lambda>c. Dump c (n + 1)) cs)"

text \<open>
  \<^verbatim>\<open>stream<<i.getLevel(); stream<<*(i.getItem());\<close> The stream operator of an item
  writes the data of the item, not its children.
\<close>

fun writeStages :: "NodeData list \<Rightarrow> token list" where
  "writeStages [] = []"
| "writeStages (i # is) = TInt (level i) # TItem (itemData (item i)) # writeStages is"

fun writeTables :: "TableModel list \<Rightarrow> fault + token list" where
  "writeTables [] = Inr []"
| "writeTables (t # ts) =
     (case readAllCells t [0..<readRows t] (readCols t) of
        Inl e \<Rightarrow> Inl e
      | Inr vss \<Rightarrow>
          (case writeTables ts of
             Inl e \<Rightarrow> Inl e
           | Inr rest \<Rightarrow>
               Inr (TString (readName t) # TInt (int (readRows t)) # TInt (int (readCols t))
                    # map TFloat (concat vss) @ rest)))"

text \<open>What is written between opening and closing the file.\<close>

definition saveStream :: "QTreeWidgetItem \<Rightarrow> TableModel list \<Rightarrow> fault + token list" where
  "saveStream topItem tabs =
     (let DumpList = Dump topItem 0 in
      case writeTables tabs of
        Inl e \<Rightarrow> Inl e
      | Inr tt \<Rightarrow>
          Inr (TInt (int (length DumpList)) # writeStages DumpList
               @ TInt (int (length tabs)) # tt))"

text \<open>
  The part of \<open>on_actionSave_triggered\<close> after the file name test.
  \<^verbatim>\<open>Dump(*ui->TreeWid->topLevelItem(0),0)\<close> dereferences a null pointer when the widget is
  empty. When the file cannot be opened nothing changes.
\<close>

definition saveToFile :: "ui \<Rightarrow> Stox \<Rightarrow> fault + Stox" where
  "saveToFile u s =
     (case TreeWid s of
        [] \<Rightarrow> Inl NullDeref
      | topItem # rest \<Rightarrow>
          (if canWrite u then
             (case saveStream topItem (Tables s) of
                Inl e \<Rightarrow> Inl e
              | Inr stream \<Rightarrow>
                  Inr (setSaved True (s\<lparr>files := (files s)(FileName s \<mapsto> stream)\<rparr>)))
           else Inr s))"

text \<open>
  \<open>on_actionSave_as_triggered\<close> sets the file name chosen in the dialog and calls
  \<open>on_actionSave_triggered\<close>, which then finds a name and saves; with no name chosen
  it returns. \<open>on_actionSave_triggered\<close> without a file name calls it.
\<close>

definition on_actionSave_as_triggered :: "ui \<Rightarrow> Stox \<Rightarrow> fault + Stox" where
  "on_actionSave_as_triggered u s =
     (if saveAsName u = [] then Inr s else saveToFile u (s\<lparr>FileName := saveAsName u\<rparr>))"

definition on_actionSave_triggered :: "ui \<Rightarrow> Stox \<Rightarrow> fault + Stox" where
  "on_actionSave_triggered u s =
     (if FileName s = [] then on_actionSave_as_triggered u s else saveToFile u s)"

subsection \<open>A new model (on_actionNew_triggered)\<close>

definition on_actionNew_triggered :: "ui \<Rightarrow> Stox \<Rightarrow> fault + Stox" where
  "on_actionNew_triggered u s =
     (case (if \<not> Saved s \<and> saveBox u = Yes then on_actionSave_triggered u s else Inr s) of
        Inl e \<Rightarrow> Inl e
      | Inr s1 \<Rightarrow>
          Inr (setChecked False (setSaved False
                 (s1\<lparr>FileName := [], TreeWid := [StartItem], hasCurrent := False,
                     Tables := [], NumTables := 0, CBCastings := []\<rparr>))))"

subsection \<open>Opening a model (on_actionOpen_triggered)\<close>

text \<open>
  Reading follows the stream value by value. A read that does not find the kind of
  value it asks for is not followed further (\<open>BadStream\<close>).
  The first loop, \<^verbatim>\<open>for(int i=0;i<stages&&!stream.atEnd();++i)\<close>, with \<open>k\<close> rounds left:
\<close>

fun readStages :: "nat \<Rightarrow> token list \<Rightarrow> NodeData list \<Rightarrow> fault + (NodeData list \<times> token list)" where
  "readStages 0 ts dl = Inr (dl, ts)"
| "readStages (Suc k) [] dl = Inr (dl, [])"
| "readStages (Suc k) (TInt n # TItem d # ts) dl =
     readStages k ts (dl @ [\<lparr>level = n, item = Item d []\<rparr>])"
| "readStages (Suc k) ts dl = Inl BadStream"

fun readFloats :: "nat \<Rightarrow> token list \<Rightarrow> fault + (float list \<times> token list)" where
  "readFloats 0 ts = Inr ([], ts)"
| "readFloats (Suc k) (TFloat x # ts) =
     (case readFloats k ts of Inl e \<Rightarrow> Inl e | Inr (xs, ts') \<Rightarrow> Inr (x # xs, ts'))"
| "readFloats (Suc k) ts = Inl BadStream"

text \<open>
  The loop over the \<open>NumTables\<close> new entries of \<open>Tables\<close>: name, rows, columns, then
  \<open>rows*cols\<close> floats into a buffer handed to \<open>FillFromRaw\<close>.
\<close>

fun readTables :: "nat \<Rightarrow> token list \<Rightarrow> fault + (TableModel list \<times> token list)" where
  "readTables 0 ts = Inr ([], ts)"
| "readTables (Suc k) (TString nam # TInt rows # TInt cols # ts) =
     (if rows < 0 \<or> cols < 0 then Inl Undefined
      else
        (case readFloats (nat rows * nat cols) ts of
           Inl e \<Rightarrow> Inl e
         | Inr (raw, ts1) \<Rightarrow>
             (case FillFromRaw raw (nat rows) (nat cols) (setName nam TableModel_new) of
                Inl e \<Rightarrow> Inl e
              | Inr t \<Rightarrow>
                  (case readTables k ts1 of
                     Inl e \<Rightarrow> Inl e
                   | Inr (tabs, ts2) \<Rightarrow> Inr (t # tabs, ts2)))))"
| "readTables (Suc k) ts = Inl BadStream"

text \<open>
  \<^verbatim>\<open>std::find_if(rbegin(DumpList),rend(DumpList),...)\<close>: the position of the last entry
  of the list with level \<open>pl\<close>.
\<close>

fun findLast :: "int \<Rightarrow> NodeData list \<Rightarrow> nat option" where
  "findLast pl [] = None"
| "findLast pl (nod # rest) =
     (case findLast pl rest of
        Some i \<Rightarrow> Some (Suc i)
      | None \<Rightarrow> (if level nod = pl then Some 0 else None))"

text \<open>\<^verbatim>\<open>(*par).getItem()->insertChild(0,node.getItem())\<close>\<close>

fun insertChild0 :: "QTreeWidgetItem \<Rightarrow> NodeData \<Rightarrow> NodeData" where
  "insertChild0 ch par =
     par\<lparr>item := Item (itemData (item par)) (ch # children (item par))\<rparr>"

text \<open>
  Rebuilding the tree, \<open>k\<close> rounds of \<^verbatim>\<open>for(int i=0;i<stages;++i)\<close> left. The result is
  the list of top-level items of the cleared widget: the loop leaves with the first
  entry that finds no parent. \<^verbatim>\<open>DumpList.back()\<close> of an empty list is undefined.
\<close>

fun rebuild :: "nat \<Rightarrow> NodeData list \<Rightarrow> fault + QTreeWidgetItem list" where
  "rebuild 0 dl = Inr []"
| "rebuild (Suc k) dl =
     (if dl = [] then Inl Undefined
      else
        (let node = last dl; dl' = butlast dl; pl = level node - 1 in
         case findLast pl dl' of
           Some i \<Rightarrow> rebuild k (dl'[i := insertChild0 (item node) (dl' ! i)])
         | None \<Rightarrow> Inr [item node]))"

text \<open>
  What is read from an opened file: the top-level items and the tables.
  \<^verbatim>\<open>Tables.resize(NumTables)\<close> with a negative count is a fault. The last step is
  \<open>on_BExpandTree_clicked\<close>, \<^verbatim>\<open>Xpand(*ui->TreeWid->topLevelItem(0))\<close>: a null pointer
  when the widget stayed empty.
\<close>

definition openStream :: "token list \<Rightarrow> fault + (QTreeWidgetItem list \<times> TableModel list)" where
  "openStream stream =
     (case stream of
        TInt stages # ts \<Rightarrow>
          (case readStages (nat stages) ts [] of
             Inl e \<Rightarrow> Inl e
           | Inr (DumpList, ts1) \<Rightarrow>
               (case ts1 of
                  TInt numTables # ts2 \<Rightarrow>
                    (if numTables < 0 then Inl Undefined
                     else
                       (case readTables (nat numTables) ts2 of
                          Inl e \<Rightarrow> Inl e
                        | Inr (tabs, ts3) \<Rightarrow>
                            (case rebuild (nat stages) DumpList of
                               Inl e \<Rightarrow> Inl e
                             | Inr tw \<Rightarrow> (if tw = [] then Inl NullDeref else Inr (tw, tabs)))))
                | _ \<Rightarrow> Inl BadStream))
      | _ \<Rightarrow> Inl BadStream)"

text \<open>
  The slot. With an unsaved model the box offers Yes, No and Cancel. The widget is
  cleared before the file is opened; a file that cannot be opened leads to
  \<open>on_actionNew_triggered\<close>.
\<close>

definition on_actionOpen_triggered :: "ui \<Rightarrow> Stox \<Rightarrow> fault + Stox" where
  "on_actionOpen_triggered u s =
     (if \<not> Saved s \<and> saveBox u = Cancel then Inr s
      else
        (case (if \<not> Saved s \<and> saveBox u = Yes then on_actionSave_triggered u s else Inr s) of
           Inl e \<Rightarrow> Inl e
         | Inr s1 \<Rightarrow>
             (if openName u = [] then Inr s1
              else
                (let s2 = s1\<lparr>TreeWid := [], hasCurrent := False\<rparr> in
                 case files s2 (openName u) of
                   None \<Rightarrow> on_actionNew_triggered u s2
                 | Some stream \<Rightarrow>
                     (case openStream stream of
                        Inl e \<Rightarrow> Inl e
                      | Inr (tw, tabs) \<Rightarrow>
                          Inr (setChecked False (setSaved True
                                 (s2\<lparr>TreeWid := tw, Tables := tabs,
                                     NumTables := int (length tabs),
                                     CBCastings := map readName tabs,
                                     FileName := openName u\<rparr>))))))))"

subsection \<open>Running the model (on_actionRun_triggered)\<close>

datatype run_msg = NotValidated | Ran

text \<open>The header loop and the loop that writes the results of iteration row \<open>r\<close>.\<close>

fun headerCells :: "OutTableModel \<Rightarrow> QTreeWidgetItem list \<Rightarrow> nat \<Rightarrow> fault + OutTableModel" where
  "headerCells out [] cols = Inr out"
| "headerCells out (it # its) cols =
     (if check2 (itemData it) then
        (case setCell out 1 cols (Txt (text3 (itemData it))) of
           Inl e \<Rightarrow> Inl e
         | Inr o1 \<Rightarrow>
             (case setCell o1 2 cols (Txt (text0 (itemData it))) of
                Inl e \<Rightarrow> Inl e
              | Inr o2 \<Rightarrow> headerCells o2 its (Suc cols)))
      else headerCells out its cols)"

text \<open>\<^verbatim>\<open>data(0,Qt::UserRole).toFloat()\<close> of an item that never received anything is 0.\<close>

definition toFloat :: "float option \<Rightarrow> float" where
  "toFloat v = (case v of None \<Rightarrow> Fin 0 | Some x \<Rightarrow> x)"

fun resultCells :: "OutTableModel \<Rightarrow> nat \<Rightarrow> QTreeWidgetItem list \<Rightarrow> nat \<Rightarrow> fault + OutTableModel" where
  "resultCells out r [] cols = Inr out"
| "resultCells out r (it # its) cols =
     (if check2 (itemData it) then
        (case setCell out r cols (Pop (toFloat (userdata (itemData it)))) of
           Inl e \<Rightarrow> Inl e
         | Inr o1 \<Rightarrow> resultCells o1 r its (Suc cols))
      else resultCells out r its cols)"

text \<open>A sequence of \<open>setCell\<close> calls, left at the first exception.\<close>

fun setCells :: "OutTableModel \<Rightarrow> (nat \<times> nat \<times> outcell) list \<Rightarrow> fault + OutTableModel" where
  "setCells out [] = Inr out"
| "setCells out ((r, c, v) # ws) =
     (case setCell out r c v of Inl e \<Rightarrow> Inl e | Inr o1 \<Rightarrow> setCells o1 ws)"

text \<open>
  The loop \<^verbatim>\<open>for(int i=1;i<=Iters&&GoOn;++i)\<close> with \<open>k\<close> rounds left. Each round writes
  the iteration number, casts \<open>N\<close> from the first top-level item (a null pointer when
  there is none), writes the populations of the reported stages and processes events;
  \<open>cancelClicked u i\<close> says whether the Cancel button is pressed then.
\<close>

fun iterations :: "ui \<Rightarrow> float \<Rightarrow> nat \<Rightarrow> nat \<Rightarrow> Stox \<Rightarrow> OutTableModel
                     \<Rightarrow> fault + (Stox \<times> OutTableModel)" where
  "iterations u N 0 i s out = Inr (s, out)"
| "iterations u N (Suc k) i s out =
     (if \<not> GoOn s then Inr (s, out)
      else
        (case setCell out (i + 2) 0 (IterNo (int i)) of
           Inl e \<Rightarrow> Inl e
         | Inr o1 \<Rightarrow>
             (case TreeWid s of
                [] \<Rightarrow> Inl NullDeref
              | topItem # rest \<Rightarrow>
                  (case Cast (Tables s) (Eps s) topItem N (generator s) of
                     Inl e \<Rightarrow> Inl e
                   | Inr (topItem', g') \<Rightarrow>
                       (let s1 = s\<lparr>TreeWid := topItem' # rest, generator := g'\<rparr> in
                        case resultCells o1 (i + 2) (iterate (TreeWid s1)) 1 of
                          Inl e \<Rightarrow> Inl e
                        | Inr o2 \<Rightarrow>
                            iterations u N k (Suc i)
                              (if cancelClicked u i then s1\<lparr>GoOn := False\<rparr> else s1) o2)))))"

text \<open>
  The run proper, from reading the parameters on. \<open>Iters\<close> is an \<^verbatim>\<open>int\<close> (what
  \<open>toInt\<close> returns): \<^verbatim>\<open>Iters+3\<close> beyond the largest \<^verbatim>\<open>int\<close> is a signed overflow, and
  \<^verbatim>\<open>Output->Init(Iters+3,cols)\<close> with a negative row count is a fault of
  \<open>vector::resize\<close>.
\<close>

definition runModel :: "ui \<Rightarrow> Stox \<Rightarrow> fault + (Stox \<times> run_msg)" where
  "runModel u s =
     (let N = EInitial u; Iters = EIters u; s1 = s\<lparr>Eps := EEps u\<rparr>;
          its = iterate (TreeWid s1);
          cols0 = 1 + length (filter (\<lambda>it. check2 (itemData it)) its);
          cols = (if cols0 < 5 then 5 else cols0)
      in if 2147483647 < Iters + 3 then Inl Undefined
         else if Iters + 3 < 0 then Inl LengthError
         else
           (case setCells (Init (nat (Iters + 3)) cols)
                   [(0, 1, Txt ''Initial''), (0, 2, Num N), (0, 3, Txt ''Eps''),
                    (0, 4, Num (Eps s1)), (2, 0, Txt ''Iter'')] of
              Inl e \<Rightarrow> Inl e
            | Inr o1 \<Rightarrow>
                (case headerCells o1 its 1 of
                   Inl e \<Rightarrow> Inl e
                 | Inr o2 \<Rightarrow>
                     (case iterations u N (nat Iters) 1 (s1\<lparr>GoOn := True\<rparr>) o2 of
                        Inl e \<Rightarrow> Inl e
                      | Inr (s2, o3) \<Rightarrow> Inr (s2\<lparr>Output := Some o3\<rparr>, Ran)))))"

text \<open>
  The slot: an unsaved model may be saved first (Yes or No), an unchecked model may be
  checked first (Yes or Cancel); a model that is still not checked is not run.
\<close>

definition on_actionRun_triggered :: "ui \<Rightarrow> Stox \<Rightarrow> fault + (Stox \<times> run_msg)" where
  "on_actionRun_triggered u s =
     (case (if \<not> Saved s \<and> saveBox u = Yes then on_actionSave_triggered u s else Inr s) of
        Inl e \<Rightarrow> Inl e
      | Inr s1 \<Rightarrow>
          (case (if \<not> Checked s1 \<and> checkBox u = Yes
                 then (case on_actionCheck_triggered u s1 of
                         Inl e \<Rightarrow> Inl e
                       | Inr (s', m) \<Rightarrow> Inr s')
                 else Inr s1) of
             Inl e \<Rightarrow> Inl e
           | Inr s2 \<Rightarrow> (if \<not> Checked s2 then Inr (s2, NotValidated) else runModel u s2)))"

subsection \<open>Adding stages (AddTreeChild)\<close>

text \<open>A new item with a name, a casting and a report mark, appended to its parent.\<close>

definition newItem :: "string \<Rightarrow> string \<Rightarrow> bool \<Rightarrow> QTreeWidgetItem" where
  "newItem nam cast sh =
     Item \<lparr>text0 = nam, text1 = cast, check2 = sh, text3 = [], userdata = None\<rparr> []"

fun AddTreeChild :: "QTreeWidgetItem \<Rightarrow> string \<Rightarrow> string \<Rightarrow> bool \<Rightarrow> QTreeWidgetItem" where
  "AddTreeChild (Item d cs) nam cast sh = Item d (cs @ [newItem nam cast sh])"

subsection \<open>Notions used by the properties\<close>

text \<open>The population recorded at child \<open>c\<close> of a stage after a cast of that stage.\<close>

definition received :: "fault + (QTreeWidgetItem \<times> gen) \<Rightarrow> nat \<Rightarrow> float option" where
  "received res c =
     (case res of
        Inl e \<Rightarrow> None
      | Inr (it, g) \<Rightarrow>
          (if c < childCount it then userdata (itemData (children it ! c)) else None))"

text \<open>The larger of two numbers, as \<open>std::max\<close> has it.\<close>

definition fmax :: "float \<Rightarrow> float \<Rightarrow> float" where
  "fmax a b = (if flt a b then b else a)"

text \<open>The row \<open>Cast\<close> reads for a located table: drawn when there are several rows.\<close>

definition castRow :: "TableModel \<Rightarrow> gen \<Rightarrow> nat" where
  "castRow t g = (if readRows t > 1 then fst (distr g (readRows t)) else readRows t)"

text \<open>
  The structural rules for one stage: no following stage and kind Success or Sink; one
  following stage and kind Direct; several following stages and a casting that is no
  reserved kind and names a table (the first of that name) with one column per
  following stage.
\<close>

fun stage_ok :: "TableModel list \<Rightarrow> QTreeWidgetItem \<Rightarrow> bool" where
  "stage_ok tabs (Item d cs) =
     (if length cs = 0 then text1 d = ''Success'' \<or> text1 d = ''Sink''
      else if length cs = 1 then text1 d = ''Direct''
      else text1 d \<noteq> ''Direct'' \<and> text1 d \<noteq> ''Success'' \<and> text1 d \<noteq> ''Sink'' \<and>
           (case find (\<lambda>t. readName t = text1 d) tabs of
              None \<Rightarrow> False
            | Some t \<Rightarrow> readCols t = length cs))"

text \<open>A tree with the hierarchical IDs blanked: what a check leaves as it was.\<close>

definition blankIDs :: "QTreeWidgetItem list \<Rightarrow> QTreeWidgetItem list" where
  "blankIDs tw = map (mapItems (\<lambda>d. d\<lparr>text3 := []\<rparr>)) tw"

text \<open>The entries a saved tree gives when it is read back: items without children.\<close>

fun flat :: "QTreeWidgetItem \<Rightarrow> int \<Rightarrow> NodeData list" where
  "flat (Item d cs) n =
     \<lparr>level = n, item = Item d []\<rparr> # concat (map (\<lambda>c. flat c (n + 1)) cs)"

subsection \<open>Example models\<close>

text \<open>
  Start (Direct) \<rightarrow> A (Direct) \<rightarrow> B (casting T) \<rightarrow> C (Success), D (Sink),
  with the one-row casting \<open>T = [0.5, 0.5]\<close>.
\<close>

definition stageB :: QTreeWidgetItem where
  "stageB = AddTreeChild (AddTreeChild (newItem ''B'' ''T'' False) ''C'' ''Success'' False)
              ''D'' ''Sink'' False"

definition oneRowT :: TableModel where
  "oneRowT = \<lparr>rawdata = [[Fin (1 / 2), Fin (1 / 2)]], myrows = 1, mycols = 2,
              name = ''T''\<rparr>"

text \<open>
  A two-row casting \<open>T\<close> with the cell \<open>1/2048\<close>, to be used with the quasi-zero value
  \<open>1/1024\<close>. All its cells are binary32 numbers.
\<close>

definition twoRowT :: TableModel where
  "twoRowT = \<lparr>rawdata = [[Fin (1 / 2048), Fin (2047 / 2048)],
                          [Fin (1 / 2048), Fin (2047 / 2048)]],
              myrows = 2, mycols = 2, name = ''T''\<rparr>"

text \<open>Answers of a user who declines every offer and continues at every warning.\<close>

definition quietUi :: ui where
  "quietUi = \<lparr>saveBox = No, saveAsName = [], canWrite = True, checkBox = Cancel,
              warnBox = (\<lambda>k. Yes), openName = [], EInitial = Fin 100, EIters = 1,
              EEps = textToFloat (1 / 10000), cancelClicked = (\<lambda>i. False),
              clipboard = None, parser = (\<lambda>source i. Fin 0)\<rparr>"

text \<open>
  A model that has been checked and saved: Start (Direct) \<rightarrow> C (Success), and a
  zero-filled casting \<open>T\<close>.
\<close>

definition checkedModel :: Stox where
  "checkedModel =
     (Stox_new (\<lambda>i. 0))
       \<lparr>TreeWid := [AddTreeChild (newItem ''Start'' ''Direct'' False) ''C'' ''Success'' False],
        hasCurrent := True,
        Tables := [FillZeroes 1 2 ''T'' TableModel_new], NumTables := 1,
        Checked := True, Saved := True, FileName := ''m.sxm'', CBCastings := [''T'']\<rparr>"

text \<open>
  Start (Direct) \<rightarrow> B \<rightarrow> C (Success), D (Sink), where B has the empty casting
  (what \<open>on_BDelTable_clicked\<close> leaves in a stage whose casting was deleted) and there
  is no table.
\<close>

definition ghostModel :: Stox where
  "ghostModel =
     (Stox_new (\<lambda>i. 0))
       \<lparr>TreeWid := [Item \<lparr>text0 = ''Start'', text1 = ''Direct'', check2 = False, text3 = [],
                           userdata = None\<rparr>
                      [AddTreeChild (AddTreeChild (newItem ''B'' [] False)
                         ''C'' ''Success'' False) ''D'' ''Sink'' False]],
        hasCurrent := True\<rparr>"

text \<open>The model of a fresh window with a stage added under Start: Start \<rightarrow> C (Success).\<close>

definition startModel :: Stox where
  "startModel =
     (Stox_new (\<lambda>i. 0))
       \<lparr>TreeWid := [AddTreeChild StartItem ''C'' ''Success'' False], hasCurrent := True\<rparr>"

text \<open>What a check ends with: the \<open>Checked\<close> flag and the message; \<open>None\<close> for a fault.\<close>

definition checkOutcome :: "fault + (Stox \<times> check_msg) \<Rightarrow> (bool \<times> check_msg) option" where
  "checkOutcome res = (case res of Inl e \<Rightarrow> None | Inr (s, m) \<Rightarrow> Some (Checked s, m))"

text \<open>A fresh window with the Start item selected.\<close>

definition freshWindow :: Stox where
  "freshWindow = (Stox_new (\<lambda>i. 0))\<lparr>hasCurrent := True\<rparr>"

text \<open>
  The whole example model in a window: Start (Direct) \<rightarrow> A (Direct, reported) \<rightarrow> B
  (casting T) \<rightarrow> C (Success), D (Sink), with the one-row casting \<open>T\<close>, not yet checked.
\<close>

definition scenarioModel :: Stox where
  "scenarioModel =
     (Stox_new (\<lambda>i. 0))
       \<lparr>TreeWid := [Item \<lparr>text0 = ''Start'', text1 = ''Direct'', check2 = False, text3 = [],
                           userdata = None\<rparr>
                      [Item \<lparr>text0 = ''A'', text1 = ''Direct'', check2 = True, text3 = [],
                             userdata = None\<rparr> [stageB]]],
        hasCurrent := True, Tables := [oneRowT], NumTables := 1, CBCastings := [''T'']\<rparr>"

section \<open>Properties\<close>

subsection \<open>Evaluating the arithmetic\<close>

lemmas float_eval =
  rnd32_def rnd64_def rnd_def signed_def onGrid_def exponent_def roundEven_def pow2_def
  expUp.simps expDown.simps fadd_def fsub_def fmul_def dsub_def fgt_def fmax_def
  textToFloat_def

text \<open>The texts 0.07 and 0.001 as \<^verbatim>\<open>float\<close>, and the \<^verbatim>\<open>double\<close> nearest to 0.001.\<close>

lemma textToFloat_examples:
  "textToFloat (7 / 100) = Fin (9395241 / 134217728)"
  "textToFloat (1 / 1000) = Fin (8589935 / 8589934592)"
  "rnd64 (1 / 1000) = Fin (1152921504606847 / 1152921504606846976)"
  by (simp_all add: float_eval)

text \<open>A product of two positive \<^verbatim>\<open>float\<close> numbers can be zero, or infinite.\<close>

lemma fmul_underflow_overflow:
  "fmul (Fin (1 / 2 ^ 100)) (Fin (1 / 2 ^ 100)) = Fin 0"
  "fmul (Fin (2 ^ 100)) (Fin (2 ^ 100)) = PInf"
  by (simp_all add: float_eval)

subsection \<open>Cast\<close>

lemma find_no_table:
  "list_all (\<lambda>t. readName t \<noteq> nam) tabs \<Longrightarrow> find (\<lambda>t. readName t = nam) tabs = None"
  by (induction tabs) auto

lemma Cast_records:
  "Cast tabs eps it n g = Inr (it', g') \<Longrightarrow> userdata (itemData it') = Some n"
  by (cases it)
     (auto simp: Let_def split: if_splits list.splits sum.splits option.splits prod.splits)

lemma Cast_caster:
  assumes "text1 d \<noteq> ''Success''" "text1 d \<noteq> ''Sink''" "text1 d \<noteq> ''Direct''"
    and "find (\<lambda>t. readName t = text1 d) tabs = Some t"
    and "Cast tabs eps (Item d cs) n g = Inr (it', g')"
  shows "\<exists>cs'. it' = Item (d\<lparr>userdata := Some n\<rparr>) cs' \<and>
           CastChildren tabs eps t (castRow t g) n 0 cs
             (if readRows t > 1 then snd (distr g (readRows t)) else g) = Inr (cs', g')"
  using assms
  by (auto simp: castRow_def Let_def split: if_splits sum.splits prod.splits)

lemma CastChildren_received:
  "CastChildren tabs eps t r n c cs g = Inr (cs', g') \<Longrightarrow>
   length cs' = length cs \<and>
   (\<forall>i < length cs. \<exists>f. readCell t r (c + i) = Inr f \<and>
        userdata (itemData (cs' ! i)) = Some (fmul n (if fgt f (Fin 0) then f else eps)))"
proof (induction cs arbitrary: c g cs')
  case Nil
  then show ?case by simp
next
  case (Cons ch chs)
  from Cons.prems obtain f ch' g1 chs' where
    f: "readCell t r c = Inr f"
    and ch: "Cast tabs eps ch (fmul n (if fgt f (Fin 0) then f else eps)) g = Inr (ch', g1)"
    and chs: "CastChildren tabs eps t r n (Suc c) chs g1 = Inr (chs', g')"
    and cs': "cs' = ch' # chs'"
    by (auto split: sum.splits prod.splits)
  from Cons.IH[OF chs] have len: "length chs' = length chs"
    and rest: "\<And>i. i < length chs \<Longrightarrow> \<exists>f. readCell t r (Suc c + i) = Inr f \<and>
        userdata (itemData (chs' ! i)) = Some (fmul n (if fgt f (Fin 0) then f else eps))"
    by auto
  show ?case
  proof (intro conjI allI impI)
    show "length cs' = length (ch # chs)" using len cs' by simp
  next
    fix i assume i: "i < length (ch # chs)"
    show "\<exists>f. readCell t r (c + i) = Inr f \<and>
        userdata (itemData (cs' ! i)) = Some (fmul n (if fgt f (Fin 0) then f else eps))"
    proof (cases i)
      case 0
      then show ?thesis using f Cast_records[OF ch] cs' by simp
    next
      case (Suc j)
      then have "j < length chs" using i by simp
      from rest[OF this] show ?thesis using Suc cs' by simp
    qed
  qed
qed

text \<open>
  C10. A stage whose casting is no reserved kind and names no table of \<open>Tables\<close> (the
  empty name included): \<open>Cast\<close> records the incoming population at the stage and
  returns without a fault; the following stages are returned as they were, with the
  populations of earlier iterations, and the generator is not advanced.
\<close>

theorem Cast_unknown_casting:
  assumes "text1 d \<noteq> ''Success''" "text1 d \<noteq> ''Sink''" "text1 d \<noteq> ''Direct''"
    and "list_all (\<lambda>t. readName t \<noteq> text1 d) tabs"
  shows "Cast tabs eps (Item d cs) n g = Inr (Item (d\<lparr>userdata := Some n\<rparr>) cs, g)"
  using assms by (simp add: find_no_table)

theorem Cast_unknown_casting_witness:
  "Cast [oneRowT] (textToFloat (1 / 1000))
     (Item \<lparr>text0 = ''B'', text1 = [], check2 = False, text3 = [], userdata = Some (Fin 7)\<rparr>
        [Item \<lparr>text0 = ''C'', text1 = ''Success'', check2 = False, text3 = [],
               userdata = Some (Fin 3)\<rparr> []])
     (Fin 100) (\<lambda>i. 0)
   = Inr (Item \<lparr>text0 = ''B'', text1 = [], check2 = False, text3 = [],
                userdata = Some (Fin 100)\<rparr>
            [Item \<lparr>text0 = ''C'', text1 = ''Success'', check2 = False, text3 = [],
                   userdata = Some (Fin 3)\<rparr> []],
          \<lambda>i. 0)"
  using Cast_unknown_casting
    [of "\<lparr>text0 = ''B'', text1 = [], check2 = False, text3 = [], userdata = Some (Fin 7)\<rparr>"
        "[oneRowT]" "textToFloat (1 / 1000)"
        "[Item \<lparr>text0 = ''C'', text1 = ''Success'', check2 = False, text3 = [],
                userdata = Some (Fin 3)\<rparr> []]"
        "Fin 100" "\<lambda>i. 0"]
  by (simp add: oneRowT_def readName_def)

text \<open>
  C1. The claim (a casting with exactly one row is used through its row 0) fails on the
  code: \<open>r\<close> is initialised with the row count and only replaced by a draw when there
  are several rows, so with one row the cells are read from row 1, which
  \<open>readCell\<close> refuses. The stage B of the example model with the one-row casting
  \<open>T = [0.5, 0.5]\<close>, population 100:
\<close>

theorem Cast_one_row_out_of_range:
  "castRow oneRowT (\<lambda>i. 0) = 1 \<and>
   readCell oneRowT 1 0 = Inl OutOfRange \<and>
   Cast [oneRowT] (textToFloat (1 / 10000)) stageB (Fin 100) (\<lambda>i. 0) = Inl OutOfRange"
  by (simp add: castRow_def stageB_def newItem_def oneRowT_def readName_def readRows_def
        readCell_def)

text \<open>
  The same for every one-row table, every generator and every stage with a following
  stage.
\<close>

lemma Cast_single_row_faults:
  assumes "text1 d \<noteq> ''Success''" "text1 d \<noteq> ''Sink''" "text1 d \<noteq> ''Direct''"
    and "find (\<lambda>t. readName t = text1 d) tabs = Some t"
    and "readRows t = 1" and "length (rawdata t) = 1" and "cs \<noteq> []"
  shows "Cast tabs eps (Item d cs) n g = Inl OutOfRange"
  using assms by (cases cs) (simp_all add: readCell_def)

text \<open>
  The example model as a whole, with \<open>N = 100\<close>, one iteration and \<open>Eps = 0.0001\<close>:
  the check finds it consistent, and the run the user lets it check ends in the
  exception of the first iteration.
\<close>

lemma scenario_check_passes:
  "checkOutcome (on_actionCheck_triggered quietUi scenarioModel) = Some (True, Consistent)"
  by (simp add: checkOutcome_def on_actionCheck_triggered_def scenarioModel_def quietUi_def
        Stox_new_def setChecked_def IDMarkTree_def stageB_def newItem_def iterate_def
        readName_def oneRowT_def readRows_def readCols_def sumCols_def number.simps
        float_eval)

lemma scenario_run_faults:
  "on_actionRun_triggered (quietUi\<lparr>checkBox := Yes\<rparr>) scenarioModel = Inl OutOfRange"
  by (simp add: on_actionRun_triggered_def runModel_def on_actionCheck_triggered_def
        scenarioModel_def quietUi_def Stox_new_def setChecked_def IDMarkTree_def stageB_def
        newItem_def iterate_def readName_def oneRowT_def readRows_def readCols_def sumCols_def
        number.simps Init_def setCell_def readCell_def Let_def numeral_eq_Suc)

text \<open>
  C2, as the code has it. A stage with a located casting \<open>t\<close> that \<open>Cast\<close> returns
  from: child \<open>c\<close> has received the \<^verbatim>\<open>float\<close> product of \<open>n\<close> and the cell \<open>f\<close> of the row
  read when \<open>f\<close> is positive, and the product of \<open>n\<close> and \<open>Eps\<close> otherwise. \<open>Eps\<close> replaces
  cells that are not positive; it is no lower bound: a cell strictly between 0 and
  \<open>Eps\<close> passes the product with the cell. Nothing is said on a child never receiving
  zero: the product can be zero.
\<close>

theorem Cast_distributes:
  assumes "text1 d \<noteq> ''Success''" "text1 d \<noteq> ''Sink''" "text1 d \<noteq> ''Direct''"
    and "find (\<lambda>t. readName t = text1 d) tabs = Some t"
    and "Cast tabs eps (Item d cs) n g = Inr (it', g')"
    and "c < length cs"
  shows "\<exists>f. readCell t (castRow t g) c = Inr f \<and>
           received (Inr (it', g')) c = Some (fmul n (if fgt f (Fin 0) then f else eps)) \<and>
           (fgt f (Fin 0) \<and> flt f eps \<longrightarrow> received (Inr (it', g')) c = Some (fmul n f))"
proof -
  from Cast_caster[OF assms(1-5)] obtain cs' g1 where
    it': "it' = Item (d\<lparr>userdata := Some n\<rparr>) cs'"
    and ch: "CastChildren tabs eps t (castRow t g) n 0 cs g1 = Inr (cs', g')"
    by blast
  from CastChildren_received[OF ch] assms(6) obtain f where
    len: "length cs' = length cs"
    and f: "readCell t (castRow t g) c = Inr f"
    and u: "userdata (itemData (cs' ! c)) = Some (fmul n (if fgt f (Fin 0) then f else eps))"
    by auto
  have r: "received (Inr (it', g')) c = Some (fmul n (if fgt f (Fin 0) then f else eps))"
    using it' len assms(6) u by (simp add: received_def childCount_def)
  show ?thesis using f r by auto
qed

theorem Cast_distributes_witness:
  "readCell twoRowT (castRow twoRowT (\<lambda>i. 0)) 0 = Inr (Fin (1 / 2048)) \<and>
   fgt (Fin (1 / 2048)) (Fin 0) \<and> flt (Fin (1 / 2048)) (Fin (1 / 1024)) \<and>
   received (Cast [twoRowT] (Fin (1 / 1024)) stageB (Fin 100) (\<lambda>i. 0)) 0
     = Some (fmul (Fin 100) (Fin (1 / 2048))) \<and>
   fmul (Fin 100) (Fin (1 / 2048)) = Fin (25 / 512)"
proof -
  let ?d = "\<lparr>text0 = ''B'', text1 = ''T'', check2 = False, text3 = [], userdata = None\<rparr>"
  let ?cs = "[newItem ''C'' ''Success'' False, newItem ''D'' ''Sink'' False]"
  let ?it = "Item (?d\<lparr>userdata := Some (Fin 100)\<rparr>)
               [Item \<lparr>text0 = ''C'', text1 = ''Success'', check2 = False, text3 = [],
                      userdata = Some (Fin (25 / 512))\<rparr> [],
                Item \<lparr>text0 = ''D'', text1 = ''Sink'', check2 = False, text3 = [],
                      userdata = Some (Fin (51175 / 512))\<rparr> []]"
  have b: "stageB = Item ?d ?cs"
    by (simp add: stageB_def newItem_def)
  have run: "Cast [twoRowT] (Fin (1 / 1024)) (Item ?d ?cs) (Fin 100) (\<lambda>i. 0)
               = Inr (?it, \<lambda>i. 0)"
    by (simp add: newItem_def twoRowT_def readName_def readRows_def readCell_def distr_def
          float_eval)
  have tab: "find (\<lambda>t. readName t = text1 ?d) [twoRowT] = Some twoRowT"
    by (simp add: twoRowT_def readName_def)
  have cell: "readCell twoRowT (castRow twoRowT (\<lambda>i. 0)) 0 = Inr (Fin (1 / 2048))"
    by (simp add: twoRowT_def castRow_def readRows_def readCell_def distr_def)
  have cmp: "fgt (Fin (1 / 2048)) (Fin 0) \<and> flt (Fin (1 / 2048)) (Fin (1 / 1024))"
    by (simp add: fgt_def)
  have prod: "fmul (Fin 100) (Fin (1 / 2048)) = Fin (25 / 512)"
    by (simp add: float_eval)
  from Cast_distributes[OF _ _ _ tab run, of 0] obtain f where
    f: "readCell twoRowT (castRow twoRowT (\<lambda>i. 0)) 0 = Inr f"
    and r: "fgt f (Fin 0) \<and> flt f (Fin (1 / 1024))
              \<longrightarrow> received (Inr (?it, \<lambda>i. 0)) 0 = Some (fmul (Fin 100) f)"
    by auto
  from f cell have "f = Fin (1 / 2048)" by simp
  with r cmp have "received (Inr (?it, \<lambda>i. 0)) 0 = Some (fmul (Fin 100) (Fin (1 / 2048)))"
    by simp
  with cell cmp prod show ?thesis
    unfolding b run by simp
qed

text \<open>
  The claim as stated, the product with the larger of cell and \<open>Eps\<close>, fails for a cell
  between 0 and \<open>Eps\<close>: with \<open>Eps = 1/1024\<close> and the cell \<open>1/2048\<close> the child receives
  \<open>100/2048\<close>, not \<open>100/1024\<close>. All these numbers and products are exact in \<^verbatim>\<open>float\<close>.
\<close>

theorem Cast_no_floor_counterexample:
  "received (Cast [twoRowT] (Fin (1 / 1024)) stageB (Fin 100) (\<lambda>i. 0)) 0
     = Some (Fin (25 / 512)) \<and>
   fmul (Fin 100) (fmax (Fin (1 / 2048)) (Fin (1 / 1024))) = Fin (25 / 256) \<and>
   received (Cast [twoRowT] (Fin (1 / 1024)) stageB (Fin 100) (\<lambda>i. 0)) 0
     \<noteq> Some (fmul (Fin 100) (fmax (Fin (1 / 2048)) (Fin (1 / 1024))))"
  by (simp add: received_def stageB_def newItem_def twoRowT_def readName_def readRows_def
        readCell_def distr_def childCount_def float_eval)

text \<open>
  The claim's last part fails as well: with \<open>Eps > 0\<close> and a population that is not zero
  a child can receive exactly zero, because the product underflows. The stage B with
  the population and both cells of the row at \<open>2 ^ -100\<close>:
\<close>

lemma Cast_child_receives_zero:
  "received
     (Cast [\<lparr>rawdata = [[Fin (1 / 2 ^ 100), Fin (1 / 2 ^ 100)],
                        [Fin (1 / 2 ^ 100), Fin (1 / 2 ^ 100)]],
             myrows = 2, mycols = 2, name = ''T''\<rparr>]
        (Fin (1 / 1024)) stageB (Fin (1 / 2 ^ 100)) (\<lambda>i. 0)) 0
     = Some (Fin 0)"
  by (simp add: received_def stageB_def newItem_def readName_def readRows_def readCell_def
        distr_def childCount_def float_eval)

subsection \<open>Casting tables\<close>

lemma FillZeroes_wf: "table_wf (FillZeroes rows cols nam t)"
  by (simp add: FillZeroes_def table_wf_def list_all_length)

text \<open>
  C3. The claim fails on the code, which does what its comments promise (``Prevent
  negative values'', ``Prevent row sum grater than 1.0'') only up to the rounding of its
  own sums: the cap \<open>1.0f - sum\<close> is stored as it is and is negative as soon as the
  \<^verbatim>\<open>float\<close> sum of the other cells exceeds 1. A zero-filled table of one row and four
  columns, edited with the texts 0.07, 0.35, 0.89 and 0.12 in the cells 3, 1, 2 and 0:
  the third edit is capped, the other cells then add up to \<open>1 + 2 ^ -23\<close> in \<^verbatim>\<open>float\<close>, and
  the fourth edit stores \<open>- 2 ^ -23\<close>.
\<close>

theorem setData_negative_cell:
  "setDataSeq (FillZeroes 1 4 ''T'' TableModel_new)
     [(0, 3, textToFloat (7 / 100)), (0, 1, textToFloat (35 / 100)),
      (0, 2, textToFloat (89 / 100)), (0, 0, textToFloat (12 / 100))]
     = Inr \<lparr>rawdata = [[Fin (- (1 / 8388608)), Fin (11744051 / 33554432),
                          Fin (4865393 / 8388608), Fin (9395241 / 134217728)]],
            myrows = 1, mycols = 4, name = ''T''\<rparr> \<and>
   readCell \<lparr>rawdata = [[Fin (- (1 / 8388608)), Fin (11744051 / 33554432),
                          Fin (4865393 / 8388608), Fin (9395241 / 134217728)]],
            myrows = 1, mycols = 4, name = ''T''\<rparr> 0 0 = Inr (Fin (- (1 / 8388608))) \<and>
   \<not> cell_in_unit \<lparr>rawdata = [[Fin (- (1 / 8388608)), Fin (11744051 / 33554432),
                          Fin (4865393 / 8388608), Fin (9395241 / 134217728)]],
            myrows = 1, mycols = 4, name = ''T''\<rparr> 0 0"
proof -
  have v: "textToFloat (7 / 100) = Fin (9395241 / 134217728)"
    "textToFloat (35 / 100) = Fin (11744051 / 33554432)"
    "textToFloat (89 / 100) = Fin (7465861 / 8388608)"
    "textToFloat (12 / 100) = Fin (16106127 / 134217728)"
    by (simp_all add: float_eval)
  have 1: "setData (FillZeroes 1 4 ''T'' TableModel_new) 0 3 (Fin (9395241 / 134217728)) EditRole
     = Inr (\<lparr>rawdata = [[Fin 0, Fin 0, Fin 0, Fin (9395241 / 134217728)]],
             myrows = 1, mycols = 4, name = ''T''\<rparr>, True)"
    by (simp add: FillZeroes_def TableModel_new_def setData_def Let_def numeral_eq_Suc)
       (simp add: float_eval)
  have 2: "setData \<lparr>rawdata = [[Fin 0, Fin 0, Fin 0, Fin (9395241 / 134217728)]],
             myrows = 1, mycols = 4, name = ''T''\<rparr> 0 1 (Fin (11744051 / 33554432)) EditRole
     = Inr (\<lparr>rawdata = [[Fin 0, Fin (11744051 / 33554432), Fin 0,
                           Fin (9395241 / 134217728)]],
             myrows = 1, mycols = 4, name = ''T''\<rparr>, True)"
    by (simp add: setData_def Let_def) (simp add: float_eval)
  have 3: "setData \<lparr>rawdata = [[Fin 0, Fin (11744051 / 33554432), Fin 0,
                           Fin (9395241 / 134217728)]],
             myrows = 1, mycols = 4, name = ''T''\<rparr> 0 2 (Fin (7465861 / 8388608)) EditRole
     = Inr (\<lparr>rawdata = [[Fin 0, Fin (11744051 / 33554432), Fin (4865393 / 8388608),
                           Fin (9395241 / 134217728)]],
             myrows = 1, mycols = 4, name = ''T''\<rparr>, True)"
    by (simp add: setData_def Let_def) (simp add: float_eval)
  have 4: "setData \<lparr>rawdata = [[Fin 0, Fin (11744051 / 33554432), Fin (4865393 / 8388608),
                           Fin (9395241 / 134217728)]],
             myrows = 1, mycols = 4, name = ''T''\<rparr> 0 0 (Fin (16106127 / 134217728)) EditRole
     = Inr (\<lparr>rawdata = [[Fin (- (1 / 8388608)), Fin (11744051 / 33554432),
                           Fin (4865393 / 8388608), Fin (9395241 / 134217728)]],
             myrows = 1, mycols = 4, name = ''T''\<rparr>, True)"
    by (simp add: setData_def Let_def) (simp add: float_eval)
  have seq: "setDataSeq (FillZeroes 1 4 ''T'' TableModel_new)
     [(0, 3, textToFloat (7 / 100)), (0, 1, textToFloat (35 / 100)),
      (0, 2, textToFloat (89 / 100)), (0, 0, textToFloat (12 / 100))]
     = Inr \<lparr>rawdata = [[Fin (- (1 / 8388608)), Fin (11744051 / 33554432),
                          Fin (4865393 / 8388608), Fin (9395241 / 134217728)]],
            myrows = 1, mycols = 4, name = ''T''\<rparr>"
    unfolding v by (simp only: setDataSeq.simps 1 2 3 4 sum.case split_conv)
  show ?thesis
    unfolding seq by (simp add: readCell_def cell_in_unit_def)
qed

text \<open>
  The sums of the last edit: the cells 1, 2 and 3 add up to more than 1 in \<^verbatim>\<open>float\<close>
  although each edit was capped.
\<close>

lemma setData_negative_cell_sum:
  "foldl fadd (fneg (Fin 0))
     [Fin 0, Fin (11744051 / 33554432), Fin (4865393 / 8388608), Fin (9395241 / 134217728)]
     = Fin (8388609 / 8388608)"
  by (simp add: float_eval)

text \<open>
  The same cap is negative at once when the other cells hold pasted or loaded values
  above 1, which \<open>FillFromRaw\<close> stores as they come. Row \<open>[5, 0]\<close>, writing 0.5 to
  column 1:
\<close>

lemma setData_raw_negative_cell:
  "FillFromRaw [Fin 5, Fin 0] 1 2 TableModel_new
     = Inr \<lparr>rawdata = [[Fin 5, Fin 0]], myrows = 1, mycols = 2, name = []\<rparr> \<and>
   setDataSeq \<lparr>rawdata = [[Fin 5, Fin 0]], myrows = 1, mycols = 2, name = []\<rparr>
       [(0, 1, Fin (1 / 2))]
     = Inr \<lparr>rawdata = [[Fin 5, Fin (- 4)]], myrows = 1, mycols = 2, name = []\<rparr>"
  by (simp add: FillFromRaw_def TableModel_new_def setData_def Let_def numeral_2_eq_2)
     (simp add: float_eval)

text \<open>What does hold of every edit: the shape of the table is kept.\<close>

lemma setData_wf:
  "table_wf t \<Longrightarrow> setData t r c v rl = Inr (t', b) \<Longrightarrow> table_wf t'"
  by (auto simp: setData_def Let_def table_wf_def list_all_length nth_list_update
        split: if_splits)

subsection \<open>Status flags\<close>

text \<open>
  C6. The claim fails on the code for the two mutations it names. In the checked and
  saved example model, ticking all report marks changes the tree, and editing a cell
  changes the casting \<open>T\<close>; both leave \<open>Checked\<close> and \<open>Saved\<close> true.
\<close>

theorem flags_kept_by_marks_and_cells:
  "Checked checkedModel \<and> Saved checkedModel \<and>
   TreeWid (on_BShowAll_clicked checkedModel) \<noteq> TreeWid checkedModel \<and>
   Checked (on_BShowAll_clicked checkedModel) \<and> Saved (on_BShowAll_clicked checkedModel) \<and>
   editCell checkedModel 0 0 0 (Fin (1 / 2))
     = Inr (checkedModel\<lparr>Tables :=
              [\<lparr>rawdata = [[Fin (1 / 2), Fin 0]], myrows = 1, mycols = 2,
                name = ''T''\<rparr>]\<rparr>) \<and>
   Tables (checkedModel\<lparr>Tables :=
              [\<lparr>rawdata = [[Fin (1 / 2), Fin 0]], myrows = 1, mycols = 2,
                name = ''T''\<rparr>]\<rparr>)
     \<noteq> Tables checkedModel \<and>
   Checked (checkedModel\<lparr>Tables :=
              [\<lparr>rawdata = [[Fin (1 / 2), Fin 0]], myrows = 1, mycols = 2,
                name = ''T''\<rparr>]\<rparr>) \<and>
   Saved (checkedModel\<lparr>Tables :=
              [\<lparr>rawdata = [[Fin (1 / 2), Fin 0]], myrows = 1, mycols = 2,
                name = ''T''\<rparr>]\<rparr>)"
  by (simp add: on_BShowAll_clicked_def editCell_def setData_def checkedModel_def Stox_new_def
        afterFirst_def newItem_def FillZeroes_def TableModel_new_def Let_def numeral_2_eq_2
        float_eval)

text \<open>
  The slots of the window that edit the model do reset both flags; creating a casting,
  for one:
\<close>

lemma on_BNewTable_clicked_resets:
  assumes "on_BNewTable_clicked rows cols s = (s', Created)"
  shows "\<not> Checked s' \<and> \<not> Saved s'"
  using assms
  by (auto simp: on_BNewTable_clicked_def setSaved_def setChecked_def Let_def
        split: if_splits)

text \<open>No report mark slot and no cell edit ever writes a flag.\<close>

lemma marks_and_cells_keep_flags:
  "Checked (on_BShowAll_clicked s) = Checked s \<and> Saved (on_BShowAll_clicked s) = Saved s \<and>
   Checked (on_BShowNone_clicked s) = Checked s \<and> Saved (on_BShowNone_clicked s) = Saved s \<and>
   Checked (on_BShowSuccess_clicked s) = Checked s \<and>
   Saved (on_BShowSuccess_clicked s) = Saved s \<and>
   (editCell s k r c v = Inr s' \<longrightarrow> Checked s' = Checked s \<and> Saved s' = Saved s)"
  by (auto simp: on_BShowAll_clicked_def on_BShowNone_clicked_def on_BShowSuccess_clicked_def
        editCell_def split: if_splits sum.splits)

subsection \<open>Pasting a casting\<close>

text \<open>
  C8. The claim fails on the code: a paste refused for an incompatible clipboard
  returns after the empty table was appended and counted. A fresh window, the name
  \<open>T\<close> in the name field, and a clipboard text without tabs, or no text at all:
\<close>

theorem paste_refused_leaves_table:
  "Tables (Stox_new (\<lambda>i. 0)) = [] \<and> NumTables (Stox_new (\<lambda>i. 0)) = 0 \<and>
   on_BPasteTable_clicked (quietUi\<lparr>clipboard := Some ''abc''\<rparr>)
       ((Stox_new (\<lambda>i. 0))\<lparr>ENewCastName := ''T''\<rparr>)
     = Inr ((Stox_new (\<lambda>i. 0))\<lparr>Tables := [TableModel_new], NumTables := 1\<rparr>,
            NotCompatible) \<and>
   on_BPasteTable_clicked (quietUi\<lparr>clipboard := None\<rparr>)
       ((Stox_new (\<lambda>i. 0))\<lparr>ENewCastName := ''T''\<rparr>)
     = Inr ((Stox_new (\<lambda>i. 0))\<lparr>Tables := [TableModel_new], NumTables := 1\<rparr>,
            NotCompatible)"
  by (simp add: on_BPasteTable_clicked_def quietUi_def Stox_new_def TypeNames_def Let_def)

text \<open>In general every refusal for the clipboard leaves one more table than before.\<close>

lemma paste_refused_general:
  assumes "on_BPasteTable_clicked u s = Inr (s', NotCompatible)"
  shows "Tables s' = Tables s @ [TableModel_new] \<and> NumTables s' = NumTables s + 1"
  using assms
  by (auto simp: on_BPasteTable_clicked_def Let_def
        split: if_splits option.splits sum.splits)

text \<open>The refusals for the name come before the table is created.\<close>

lemma paste_name_refused:
  assumes "on_BPasteTable_clicked u s = Inr (s', m)"
    and "m = InputNewName \<or> m = NotAllowedName \<or> m = AlreadyExists"
  shows "Tables s' = Tables s \<and> NumTables s' = NumTables s"
  using assms
  by (auto simp: on_BPasteTable_clicked_def Let_def
        split: if_splits option.splits sum.splits)

subsection \<open>The consistency check\<close>

lemma setChecked_fields [simp]:
  "Checked (setChecked b s) = b" "TreeWid (setChecked b s) = TreeWid s"
  "Tables (setChecked b s) = Tables s" "hasCurrent (setChecked b s) = hasCurrent s"
  "Saved (setChecked b s) = Saved s" "Output (setChecked b s) = Output s"
  "generator (setChecked b s) = generator s" "Eps (setChecked b s) = Eps s"
  "CloneMode (setChecked b s) = CloneMode s" "NumTables (setChecked b s) = NumTables s"
  "FileName (setChecked b s) = FileName s" "files (setChecked b s) = files s"
  by (simp_all add: setChecked_def)

lemma setSaved_fields [simp]:
  "Saved (setSaved b s) = b" "TreeWid (setSaved b s) = TreeWid s"
  "Tables (setSaved b s) = Tables s" "hasCurrent (setSaved b s) = hasCurrent s"
  "Checked (setSaved b s) = Checked s" "Output (setSaved b s) = Output s"
  "generator (setSaved b s) = generator s" "Eps (setSaved b s) = Eps s"
  "CloneMode (setSaved b s) = CloneMode s" "NumTables (setSaved b s) = NumTables s"
  "FileName (setSaved b s) = FileName s" "files (setSaved b s) = files s"
  by (simp_all add: setSaved_def)

lemma IDMarkTree_total: "TreeWid s \<noteq> [] \<Longrightarrow> \<exists>s1. IDMarkTree s = Inr s1"
  by (cases "TreeWid s") (auto simp: IDMarkTree_def split: QTreeWidgetItem.splits)

lemma length_markList: "length (markList idp k cs) = length cs"
  by (induction idp k cs rule: markList.induct) simp_all

lemma stage_ok_marked:
  "stage_ok tabs (Item (d\<lparr>text3 := x\<rparr>) (markList idp k cs)) = stage_ok tabs (Item d cs)"
  by (auto simp: length_markList split: option.splits)

lemma stage_ok_markList:
  "list_all (stage_ok tabs) (concat (map allItems (markList idp k cs)))
     = list_all (stage_ok tabs) (concat (map allItems cs))"
  by (induction idp k cs rule: markList.induct)
     (simp_all add: stage_ok_marked del: stage_ok.simps)

lemma stage_ok_children_marked:
  "stage_ok tabs (Item d (markList idp k cs)) = stage_ok tabs (Item d cs)"
  by (auto simp: length_markList split: option.splits)

lemma stage_ok_markBelow:
  "list_all (stage_ok tabs) (allItems (markBelow it)) = list_all (stage_ok tabs) (allItems it)"
  by (cases it) (simp add: stage_ok_markList stage_ok_children_marked del: stage_ok.simps)

lemma stage_ok_map_markBelow:
  "list_all (stage_ok tabs) (concat (map allItems (map markBelow tw)))
     = list_all (stage_ok tabs) (concat (map allItems tw))"
  by (induction tw) (simp_all add: stage_ok_markBelow del: markBelow.simps)

text \<open>Marking the IDs changes no casting and no number of following stages.\<close>

lemma IDMarkTree_stage_ok:
  assumes "IDMarkTree s = Inr s1"
  shows "list_all (stage_ok tabs) (iterate (TreeWid s1))
           = list_all (stage_ok tabs) (iterate (TreeWid s))"
    and "Tables s1 = Tables s" and "hasCurrent s1 = hasCurrent s"
    and "Checked s1 = Checked s"
proof -
  from assms obtain d cs rest where
    tw: "TreeWid s = Item d cs # rest"
    and s1: "s1 = s\<lparr>TreeWid := markBelow (Item (d\<lparr>text3 := ''1''\<rparr>) cs) # map markBelow rest\<rparr>"
    by (auto simp: IDMarkTree_def split: list.splits QTreeWidgetItem.splits)
  show "list_all (stage_ok tabs) (iterate (TreeWid s1))
           = list_all (stage_ok tabs) (iterate (TreeWid s))"
    using tw s1 stage_ok_map_markBelow[of tabs rest]
    by (simp add: iterate_def stage_ok_markList stage_ok_marked del: stage_ok.simps)
  show "Tables s1 = Tables s" "hasCurrent s1 = hasCurrent s" "Checked s1 = Checked s"
    using s1 by simp_all
qed

text \<open>
  The structural loop runs to its end when every stage keeps the rules. (It also does
  when a stage with several following stages names no table.)
\<close>

lemma checkStages_valid:
  "list_all (stage_ok tabs) its \<Longrightarrow> checkStages tabs its = None"
proof (induction its)
  case Nil
  then show ?case by simp
next
  case (Cons it its)
  obtain d cs where it: "it = Item d cs" by (cases it)
  from Cons have ok: "stage_ok tabs (Item d cs)" and rest: "checkStages tabs its = None"
    by (simp_all add: it)
  consider "length cs = 0" | "length cs = 1" | "length cs > 1" by linarith
  then show ?case
  proof cases
    case 1
    with ok rest show ?thesis by (auto simp: it Let_def)
  next
    case 2
    with ok rest show ?thesis by (auto simp: it Let_def)
  next
    case 3
    with ok obtain t where
      "text1 d \<noteq> ''Direct''" "text1 d \<noteq> ''Success''" "text1 d \<noteq> ''Sink''"
      "find (\<lambda>t. readName t = text1 d) tabs = Some t" "readCols t = length cs"
      by (auto split: option.splits if_splits)
    with 3 rest show ?thesis by (auto simp: it Let_def)
  qed
qed

lemma warnRows_total:
  assumes "list_all (\<lambda>r. r < length (rawdata t)) rs"
  shows "\<exists>res. warnRows u t rs w = Inr res \<and> ((\<forall>k. warnBox u k = Yes) \<longrightarrow> res \<noteq> None)"
  using assms
  by (induction rs arbitrary: w) (auto simp: sumCols_def)

lemma warnTables_total:
  assumes "list_all table_wf tabs"
  shows "\<exists>res. warnTables u tabs w = Inr res \<and> ((\<forall>k. warnBox u k = Yes) \<longrightarrow> res \<noteq> None)"
  using assms
proof (induction tabs arbitrary: w)
  case Nil
  then show ?case by simp
next
  case (Cons t ts)
  then have "list_all (\<lambda>r. r < length (rawdata t)) [0..<readRows t]"
    by (simp add: table_wf_def readRows_def list_all_iff)
  from warnRows_total[OF this, of u w] obtain res where
    res: "warnRows u t [0..<readRows t] w = Inr res"
      "(\<forall>k. warnBox u k = Yes) \<longrightarrow> res \<noteq> None"
    by blast
  show ?case
  proof (cases res)
    case None
    then show ?thesis using res by simp
  next
    case (Some w')
    from Cons have "list_all table_wf ts" by simp
    from Cons.IH[OF this, of w'] show ?thesis using res Some by simp
  qed
qed

text \<open>
  C4. The claim fails on the code for a casting that names no table: the loop over
  \<open>Tables\<close> finds nothing and the check goes on. In the example stage B has two
  following stages and the empty casting, there is no table at all, and the check ends
  with "Model checked and found consistent" and \<open>Checked\<close> set.
\<close>

theorem check_passes_missing_table:
  "Tables ghostModel = [] \<and>
   \<not> list_all (stage_ok (Tables ghostModel)) (iterate (TreeWid ghostModel)) \<and>
   checkOutcome (on_actionCheck_triggered quietUi ghostModel) = Some (True, Consistent)"
  by (simp add: checkOutcome_def on_actionCheck_triggered_def ghostModel_def quietUi_def
        Stox_new_def setChecked_def IDMarkTree_def newItem_def iterate_def readName_def
        number.simps)

text \<open>
  The two failures the claim names besides are as it says: a reserved kind, and a
  table with another number of columns.
\<close>

lemma checkStages_branch_errors:
  assumes "length cs > 1"
  shows "text1 d = ''Direct'' \<or> text1 d = ''Success'' \<or> text1 d = ''Sink'' \<Longrightarrow>
           checkStages tabs (Item d cs # its) = Some (NoCastingSet (text0 d) (text3 d))"
    and "text1 d \<noteq> ''Direct'' \<Longrightarrow> text1 d \<noteq> ''Success'' \<Longrightarrow> text1 d \<noteq> ''Sink'' \<Longrightarrow>
         find (\<lambda>t. readName t = text1 d) tabs = Some t \<Longrightarrow> readCols t \<noteq> length cs \<Longrightarrow>
           checkStages tabs (Item d cs # its)
             = Some (ColumnMismatch (text0 d) (text3 d) (length cs) (text1 d) (readCols t))"
  using assms by (auto simp: Let_def)

text \<open>
  C9, as the code has it. The first top-level item is inspected like every other stage.
  When every stage, that one included, keeps the structural rules (and no replication
  is pending, the tree is not empty and the tables have their shape), the check finds
  no structural error; it sets \<open>Checked\<close> unless the user cancels at a row sum warning.
\<close>

theorem check_valid_tree:
  assumes "\<not> CloneMode s" and "TreeWid s \<noteq> []"
    and "list_all (stage_ok (Tables s)) (iterate (TreeWid s))"
    and "list_all table_wf (Tables s)"
  shows "\<exists>s' m. on_actionCheck_triggered u s = Inr (s', m) \<and>
           (m = CheckCancelled \<and> \<not> Checked s' \<or>
            (m = Consistent \<or> (\<exists>w. m = Workable w)) \<and> Checked s') \<and>
           ((\<forall>k. warnBox u k = Yes) \<longrightarrow> Checked s')"
proof -
  have "TreeWid (setChecked False s) \<noteq> []"
    using assms(2) by simp
  from IDMarkTree_total[OF this] obtain s1 where
    s1: "IDMarkTree (setChecked False s) = Inr s1"
    by blast
  have tabs: "Tables s1 = Tables s" and c1: "\<not> Checked s1"
    using IDMarkTree_stage_ok(2,4)[OF s1] by simp_all
  have "list_all (stage_ok (Tables s)) (iterate (TreeWid s1))"
    using IDMarkTree_stage_ok(1)[OF s1, of "Tables s"] assms(3) by simp
  then have stages: "checkStages (Tables s1) (iterate (TreeWid s1)) = None"
    using tabs by (simp add: checkStages_valid)
  from warnTables_total[OF assms(4), of u 0] obtain res where
    res: "warnTables u (Tables s1) 0 = Inr res" "(\<forall>k. warnBox u k = Yes) \<longrightarrow> res \<noteq> None"
    using tabs by auto
  show ?thesis
  proof (cases res)
    case None
    then show ?thesis
      using assms(1) s1 stages res c1 by (simp add: on_actionCheck_triggered_def)
  next
    case (Some w)
    then show ?thesis
      using assms(1) s1 stages res
      by (simp add: on_actionCheck_triggered_def)
  qed
qed

theorem check_valid_tree_witness:
  "list_all (stage_ok (Tables checkedModel)) (iterate (TreeWid checkedModel)) \<and>
   checkOutcome (on_actionCheck_triggered quietUi checkedModel) = Some (True, Workable 1)"
proof -
  have 1: "\<not> CloneMode checkedModel" and 2: "TreeWid checkedModel \<noteq> []"
    and 3: "list_all (stage_ok (Tables checkedModel)) (iterate (TreeWid checkedModel))"
    and 4: "list_all table_wf (Tables checkedModel)"
    by (simp_all add: checkedModel_def Stox_new_def newItem_def iterate_def FillZeroes_def
          TableModel_new_def table_wf_def)
  have out: "checkOutcome (on_actionCheck_triggered quietUi checkedModel)
               = Some (True, Workable 1)"
    by (simp add: checkOutcome_def on_actionCheck_triggered_def checkedModel_def quietUi_def
          Stox_new_def setChecked_def IDMarkTree_def newItem_def iterate_def FillZeroes_def
          TableModel_new_def readRows_def sumCols_def numeral_2_eq_2 number.simps float_eval)
  from check_valid_tree[OF 1 2 3 4, of quietUi] 3 out show ?thesis by simp
qed

text \<open>
  The claim as stated fails: the Start item of a fresh window has no casting, and with
  one stage under it, a Success leaf, the check stops at Start with "has only one
  following stage, it should be type 'direct'".
\<close>

theorem check_root_counterexample:
  "text1 (itemData (hd (TreeWid startModel))) = [] \<and>
   list_all (stage_ok (Tables startModel)) (tl (iterate (TreeWid startModel))) \<and>
   checkOutcome (on_actionCheck_triggered quietUi startModel)
     = Some (False, OneFollowingStage ''Start'' ''1'')"
  by (simp add: checkOutcome_def on_actionCheck_triggered_def startModel_def quietUi_def
        Stox_new_def setChecked_def IDMarkTree_def newItem_def iterate_def StartItem_def
        number.simps)

subsection \<open>Running a model that is not checked\<close>

lemma blankIDs_markList:
  "map (mapItems (\<lambda>d. d\<lparr>text3 := []\<rparr>)) (markList idp k cs)
     = map (mapItems (\<lambda>d. d\<lparr>text3 := []\<rparr>)) cs"
  by (induction idp k cs rule: markList.induct) simp_all

lemma blankIDs_markBelow:
  "mapItems (\<lambda>d. d\<lparr>text3 := []\<rparr>) (markBelow it) = mapItems (\<lambda>d. d\<lparr>text3 := []\<rparr>) it"
  by (cases it) (simp add: blankIDs_markList)

text \<open>The IDs are all that \<open>IDMarkTree\<close> writes.\<close>

lemma IDMarkTree_blankIDs:
  assumes "IDMarkTree s = Inr s1"
  shows "blankIDs (TreeWid s1) = blankIDs (TreeWid s)"
    and "s1\<lparr>TreeWid := TreeWid s\<rparr> = s"
proof -
  from assms obtain d cs rest where
    tw: "TreeWid s = Item d cs # rest"
    and s1: "s1 = s\<lparr>TreeWid := markBelow (Item (d\<lparr>text3 := ''1''\<rparr>) cs) # map markBelow rest\<rparr>"
    by (auto simp: IDMarkTree_def split: list.splits QTreeWidgetItem.splits)
  show "blankIDs (TreeWid s1) = blankIDs (TreeWid s)"
    using tw s1 by (simp add: blankIDs_def blankIDs_markList blankIDs_markBelow)
  show "s1\<lparr>TreeWid := TreeWid s\<rparr> = s"
    using s1 by simp
qed

text \<open>A check writes the IDs and the \<open>Checked\<close> flag, nothing else.\<close>

lemma check_writes:
  assumes "on_actionCheck_triggered u s = Inr (s', m)"
  shows "blankIDs (TreeWid s') = blankIDs (TreeWid s)"
    and "Tables s' = Tables s" and "Output s' = Output s" and "generator s' = generator s"
    and "Eps s' = Eps s" and "Saved s' = Saved s" and "files s' = files s"
proof -
  have "blankIDs (TreeWid s') = blankIDs (TreeWid s) \<and> Tables s' = Tables s \<and>
        Output s' = Output s \<and> generator s' = generator s \<and> Eps s' = Eps s \<and>
        Saved s' = Saved s \<and> files s' = files s"
  proof (cases "CloneMode s")
    case True
    with assms show ?thesis by (simp add: on_actionCheck_triggered_def)
  next
    case False
    with assms obtain s1 where s1: "IDMarkTree (setChecked False s) = Inr s1"
      and s': "s' = s1 \<or> s' = setChecked True s1"
      by (auto simp: on_actionCheck_triggered_def
            split: sum.splits option.splits if_splits)
    from IDMarkTree_blankIDs[OF s1] have
      b: "blankIDs (TreeWid s1) = blankIDs (TreeWid s)"
      and r: "s1\<lparr>TreeWid := TreeWid (setChecked False s)\<rparr> = setChecked False s"
      by simp_all
    have "Tables (s1\<lparr>TreeWid := TreeWid (setChecked False s)\<rparr>) = Tables s"
      "Output (s1\<lparr>TreeWid := TreeWid (setChecked False s)\<rparr>) = Output s"
      "generator (s1\<lparr>TreeWid := TreeWid (setChecked False s)\<rparr>) = generator s"
      "Eps (s1\<lparr>TreeWid := TreeWid (setChecked False s)\<rparr>) = Eps s"
      "Saved (s1\<lparr>TreeWid := TreeWid (setChecked False s)\<rparr>) = Saved s"
      "files (s1\<lparr>TreeWid := TreeWid (setChecked False s)\<rparr>) = files s"
      unfolding r by simp_all
    then have "Tables s1 = Tables s" "Output s1 = Output s" "generator s1 = generator s"
      "Eps s1 = Eps s" "Saved s1 = Saved s" "files s1 = files s"
      by simp_all
    with b s' show ?thesis by auto
  qed
  then show "blankIDs (TreeWid s') = blankIDs (TreeWid s)"
    and "Tables s' = Tables s" and "Output s' = Output s" and "generator s' = generator s"
    and "Eps s' = Eps s" and "Saved s' = Saved s" and "files s' = files s"
    by simp_all
qed

text \<open>Saving writes the file, the file name and the \<open>Saved\<close> flag.\<close>

lemma save_writes:
  assumes "on_actionSave_triggered u s = Inr s'"
  shows "TreeWid s' = TreeWid s \<and> Tables s' = Tables s \<and> Output s' = Output s \<and>
         generator s' = generator s \<and> Eps s' = Eps s \<and> Checked s' = Checked s"
  using assms
  by (auto simp: on_actionSave_triggered_def on_actionSave_as_triggered_def saveToFile_def
        split: if_splits list.splits sum.splits)

text \<open>A run does not write the \<open>Checked\<close> flag.\<close>

lemma iterations_Checked:
  "iterations u N k i s out = Inr (s', out') \<Longrightarrow> Checked s' = Checked s"
proof (induction k arbitrary: i s out)
  case 0
  then show ?case by simp
next
  case (Suc k)
  show ?case
  proof (cases "GoOn s")
    case False
    with Suc.prems show ?thesis by simp
  next
    case True
    with Suc.prems obtain s1 o2 where
      rec: "iterations u N k (Suc i) s1 o2 = Inr (s', out')" and c: "Checked s1 = Checked s"
      by (auto simp: Let_def split: sum.splits list.splits prod.splits if_splits)
    from Suc.IH[OF rec] c show ?thesis by simp
  qed
qed

lemma runModel_Checked:
  assumes "runModel u s = Inr (s', m)"
  shows "Checked s' = Checked s"
proof -
  from assms obtain s2 o2 o3 where
    it: "iterations u (EInitial u) (nat (EIters u)) 1 (s\<lparr>Eps := EEps u, GoOn := True\<rparr>) o2
           = Inr (s2, o3)"
    and s': "s' = s2\<lparr>Output := Some o3\<rparr>"
    by (auto simp: runModel_def Let_def split: if_splits sum.splits prod.splits)
  from iterations_Checked[OF it] s' show ?thesis by simp
qed

text \<open>
  C7, as the code has it. (1) A model that is not checked, with a user who declines
  both the offer to save (or a saved model) and the offer to check: the run is refused
  and the state is the one before. (2) Whenever the run returns with \<open>Checked\<close> still
  false, it was refused: no output table was allocated or written, no iteration ran
  (generator, \<open>Eps\<close> untouched), the tables are unchanged and the tree is unchanged up
  to the hierarchical IDs, which a check the user asked for has rewritten.
\<close>

theorem run_not_validated:
  "(\<not> Checked s \<and> (Saved s \<or> saveBox u \<noteq> Yes) \<and> checkBox u \<noteq> Yes
      \<longrightarrow> on_actionRun_triggered u s = Inr (s, NotValidated)) \<and>
   (on_actionRun_triggered u s = Inr (s', m) \<and> \<not> Checked s'
      \<longrightarrow> m = NotValidated \<and> Output s' = Output s \<and> generator s' = generator s \<and>
          Eps s' = Eps s \<and> Tables s' = Tables s \<and>
          blankIDs (TreeWid s') = blankIDs (TreeWid s))"
proof (rule conjI)
  show "\<not> Checked s \<and> (Saved s \<or> saveBox u \<noteq> Yes) \<and> checkBox u \<noteq> Yes
          \<longrightarrow> on_actionRun_triggered u s = Inr (s, NotValidated)"
    by (auto simp: on_actionRun_triggered_def)
next
  show "on_actionRun_triggered u s = Inr (s', m) \<and> \<not> Checked s'
      \<longrightarrow> m = NotValidated \<and> Output s' = Output s \<and> generator s' = generator s \<and>
          Eps s' = Eps s \<and> Tables s' = Tables s \<and>
          blankIDs (TreeWid s') = blankIDs (TreeWid s)"
  proof (rule impI)
    assume a: "on_actionRun_triggered u s = Inr (s', m) \<and> \<not> Checked s'"
    let ?r1 = "if \<not> Saved s \<and> saveBox u = Yes then on_actionSave_triggered u s else Inr s"
    obtain s1 where r1: "?r1 = Inr s1"
      using a by (cases ?r1) (simp_all add: on_actionRun_triggered_def)
    let ?r2 = "if \<not> Checked s1 \<and> checkBox u = Yes
               then (case on_actionCheck_triggered u s1 of
                       Inl e \<Rightarrow> Inl e
                     | Inr (s', m) \<Rightarrow> Inr s')
               else Inr s1"
    obtain s2 where r2: "?r2 = Inr s2"
      using a r1 by (cases ?r2) (simp_all add: on_actionRun_triggered_def)
    have fin: "(if \<not> Checked s2 then Inr (s2, NotValidated) else runModel u s2) = Inr (s', m)"
      using a r1 r2 by (simp add: on_actionRun_triggered_def)
    have s1: "s1 = s \<or> on_actionSave_triggered u s = Inr s1"
      using r1 by (auto split: if_splits)
    have s2: "s2 = s1 \<or> (\<exists>m'. on_actionCheck_triggered u s1 = Inr (s2, m'))"
      using r2 by (auto split: if_splits sum.splits prod.splits)
    have c2: "\<not> Checked s2"
    proof
      assume "Checked s2"
      with fin have "runModel u s2 = Inr (s', m)" by simp
      from runModel_Checked[OF this] \<open>Checked s2\<close> a show False by simp
    qed
    with fin have res: "s' = s2" "m = NotValidated" by simp_all
    have p1: "TreeWid s1 = TreeWid s \<and> Tables s1 = Tables s \<and> Output s1 = Output s \<and>
              generator s1 = generator s \<and> Eps s1 = Eps s"
      using s1 save_writes[of u s s1] by auto
    have p2: "blankIDs (TreeWid s2) = blankIDs (TreeWid s1) \<and> Tables s2 = Tables s1 \<and>
              Output s2 = Output s1 \<and> generator s2 = generator s1 \<and> Eps s2 = Eps s1"
      using s2 check_writes[of u s1 s2] by auto
    show "m = NotValidated \<and> Output s' = Output s \<and> generator s' = generator s \<and>
            Eps s' = Eps s \<and> Tables s' = Tables s \<and>
            blankIDs (TreeWid s') = blankIDs (TreeWid s)"
      using res p1 p2 by simp
  qed
qed

theorem run_not_validated_witness:
  "on_actionRun_triggered quietUi freshWindow = Inr (freshWindow, NotValidated) \<and>
   on_actionRun_triggered (quietUi\<lparr>checkBox := Yes\<rparr>) freshWindow
     = Inr (freshWindow\<lparr>TreeWid := [Item \<lparr>text0 = ''Start'', text1 = [], check2 = False,
                                            text3 = ''1'', userdata = None\<rparr> []]\<rparr>,
            NotValidated) \<and>
   Output (freshWindow\<lparr>TreeWid := [Item \<lparr>text0 = ''Start'', text1 = [], check2 = False,
                                            text3 = ''1'', userdata = None\<rparr> []]\<rparr>) = None \<and>
   blankIDs [Item \<lparr>text0 = ''Start'', text1 = [], check2 = False, text3 = ''1'',
                   userdata = None\<rparr> []]
     = blankIDs (TreeWid freshWindow)"
proof -
  let ?s' = "freshWindow\<lparr>TreeWid := [Item \<lparr>text0 = ''Start'', text1 = [], check2 = False,
                                           text3 = ''1'', userdata = None\<rparr> []]\<rparr>"
  have pre: "\<not> Checked freshWindow \<and> (Saved freshWindow \<or> saveBox quietUi \<noteq> Yes) \<and>
             checkBox quietUi \<noteq> Yes"
    by (simp add: freshWindow_def Stox_new_def quietUi_def)
  have run: "on_actionRun_triggered (quietUi\<lparr>checkBox := Yes\<rparr>) freshWindow
               = Inr (?s', NotValidated)"
    by (simp add: on_actionRun_triggered_def on_actionCheck_triggered_def freshWindow_def
          quietUi_def Stox_new_def setChecked_def IDMarkTree_def iterate_def StartItem_def)
  have c: "\<not> Checked ?s'"
    by (simp add: freshWindow_def Stox_new_def)
  from run_not_validated[of freshWindow quietUi freshWindow NotValidated] pre
  have 1: "on_actionRun_triggered quietUi freshWindow = Inr (freshWindow, NotValidated)"
    by blast
  from run_not_validated[of freshWindow "quietUi\<lparr>checkBox := Yes\<rparr>" ?s' NotValidated] run c
  have 2: "Output ?s' = Output freshWindow \<and>
           blankIDs (TreeWid ?s') = blankIDs (TreeWid freshWindow)"
    by blast
  have o: "Output freshWindow = None"
    by (simp add: freshWindow_def Stox_new_def)
  from 1 2 run o show ?thesis by simp
qed

text \<open>
  The claim as stated fails where it says the state is unchanged: when the user lets
  the run check the model and the check fails, the IDs have been rewritten. A fresh
  window (Start has no kind, so the check fails), the user answers Yes to the check:
\<close>

theorem run_not_validated_counterexample:
  "\<not> Checked freshWindow \<and>
   on_actionRun_triggered (quietUi\<lparr>checkBox := Yes\<rparr>) freshWindow
     = Inr (freshWindow\<lparr>TreeWid := [Item \<lparr>text0 = ''Start'', text1 = [], check2 = False,
                                            text3 = ''1'', userdata = None\<rparr> []]\<rparr>,
            NotValidated) \<and>
   freshWindow\<lparr>TreeWid := [Item \<lparr>text0 = ''Start'', text1 = [], check2 = False,
                                   text3 = ''1'', userdata = None\<rparr> []]\<rparr> \<noteq> freshWindow"
proof -
  have "TreeWid (freshWindow\<lparr>TreeWid := [Item \<lparr>text0 = ''Start'', text1 = [],
           check2 = False, text3 = ''1'', userdata = None\<rparr> []]\<rparr>) \<noteq> TreeWid freshWindow"
    by (simp add: freshWindow_def Stox_new_def StartItem_def)
  then have "freshWindow\<lparr>TreeWid := [Item \<lparr>text0 = ''Start'', text1 = [], check2 = False,
                 text3 = ''1'', userdata = None\<rparr> []]\<rparr> \<noteq> freshWindow"
    by metis
  then show ?thesis
    by (simp add: on_actionRun_triggered_def on_actionCheck_triggered_def freshWindow_def
          quietUi_def Stox_new_def setChecked_def IDMarkTree_def iterate_def StartItem_def)
qed

subsection \<open>Saving and opening\<close>

text \<open>Filling a table from a buffer gives it its shape.\<close>

lemma chop_shape:
  "rows * cols \<le> length raw \<Longrightarrow>
   length (chop rows cols raw) = rows \<and> list_all (\<lambda>row. length row = cols) (chop rows cols raw)"
proof (induction rows arbitrary: raw)
  case 0
  then show ?case by simp
next
  case (Suc rows)
  then have "rows * cols \<le> length (drop cols raw)" and "cols \<le> length raw"
    by simp_all
  with Suc.IH[of "drop cols raw"] show ?case by simp
qed

lemma FillFromRaw_wf:
  "FillFromRaw raw rows cols t = Inr t' \<Longrightarrow> table_wf t'"
  using chop_shape[of rows cols raw]
  by (auto simp: FillFromRaw_def table_wf_def split: if_splits)

lemma chop_concat:
  "list_all (\<lambda>row. length row = cols) rws \<Longrightarrow> chop (length rws) cols (concat rws) = rws"
  by (induction rws) simp_all

lemma length_concat_rows:
  "list_all (\<lambda>row. length row = cols) rws \<Longrightarrow> length (concat rws) = length rws * cols"
  by (induction rws) simp_all

lemma readRowCells_nth:
  assumes "r < length (rawdata t)" and "list_all (\<lambda>c. c < length (rawdata t ! r)) cs"
  shows "readRowCells t r cs = Inr (map (\<lambda>c. rawdata t ! r ! c) cs)"
  using assms by (induction cs) (simp_all add: readCell_def)

lemma readRowCells_row:
  assumes "r < length (rawdata t)" and "length (rawdata t ! r) = cols"
  shows "readRowCells t r [0..<cols] = Inr (rawdata t ! r)"
proof -
  have "readRowCells t r [0..<cols] = Inr (map (\<lambda>c. rawdata t ! r ! c) [0..<cols])"
    using assms by (intro readRowCells_nth) (simp_all add: list_all_iff)
  also have "map (\<lambda>c. rawdata t ! r ! c) [0..<cols] = rawdata t ! r"
    using assms(2) map_nth[of "rawdata t ! r"] by simp
  finally show ?thesis .
qed

lemma readAllCells_nth:
  assumes "list_all (\<lambda>r. r < length (rawdata t) \<and> length (rawdata t ! r) = cols) rs"
  shows "readAllCells t rs cols = Inr (map (\<lambda>r. rawdata t ! r) rs)"
  using assms by (induction rs) (simp_all add: readRowCells_row)

text \<open>The cells a save writes are the rows of the table, one after the other.\<close>

lemma readAllCells_wf:
  assumes "table_wf t"
  shows "readAllCells t [0..<readRows t] (readCols t) = Inr (rawdata t)"
proof -
  have "readAllCells t [0..<readRows t] (readCols t)
          = Inr (map (\<lambda>r. rawdata t ! r) [0..<readRows t])"
    using assms
    by (intro readAllCells_nth)
       (simp add: table_wf_def readRows_def readCols_def list_all_length)
  also have "map (\<lambda>r. rawdata t ! r) [0..<readRows t] = rawdata t"
    using assms map_nth[of "rawdata t"] by (simp add: table_wf_def readRows_def)
  finally show ?thesis .
qed

text \<open>A copy has the shape and the cells of its source.\<close>

lemma FillFromCopy_cells:
  assumes "table_wf source"
  shows "\<exists>t'. FillFromCopy source nam t = Inr t' \<and> table_wf t' \<and>
           rawdata t' = rawdata source"
  using assms readAllCells_wf[OF assms]
  by (simp add: FillFromCopy_def table_wf_def readRows_def readCols_def)

lemma readFloats_written:
  "readFloats (length xs) (map TFloat xs @ rest) = Inr (xs, rest)"
  by (induction xs) simp_all

text \<open>Reading back one table that was written.\<close>

lemma FillFromRaw_written:
  assumes "table_wf t"
  shows "FillFromRaw (concat (rawdata t)) (myrows t) (mycols t)
           (setName (readName t) TableModel_new) = Inr t"
proof -
  have rows: "length (rawdata t) = myrows t"
    and cols: "list_all (\<lambda>row. length row = mycols t) (rawdata t)"
    using assms by (simp_all add: table_wf_def)
  have len: "length (concat (rawdata t)) = myrows t * mycols t"
    using length_concat_rows[OF cols] rows by simp
  have "chop (myrows t) (mycols t) (concat (rawdata t)) = rawdata t"
    using chop_concat[OF cols] rows by simp
  with len show ?thesis
    by (simp add: FillFromRaw_def setName_def TableModel_new_def readName_def)
qed

lemma readTables_written:
  assumes "list_all table_wf tabs"
  shows "\<exists>tt. writeTables tabs = Inr tt \<and>
           (\<forall>rest. readTables (length tabs) (tt @ rest) = Inr (tabs, rest))"
  using assms
proof (induction tabs)
  case Nil
  then show ?case by simp
next
  case (Cons t ts)
  then have wf: "table_wf t" and "list_all table_wf ts" by simp_all
  from Cons.IH[OF this(2)] obtain tt where
    tt: "writeTables ts = Inr tt" "\<And>rest. readTables (length ts) (tt @ rest) = Inr (ts, rest)"
    by blast
  have cells: "readAllCells t [0..<readRows t] (readCols t) = Inr (rawdata t)"
    by (rule readAllCells_wf[OF wf])
  have len: "length (concat (rawdata t)) = myrows t * mycols t"
    using wf length_concat_rows[of "mycols t" "rawdata t"] by (simp add: table_wf_def)
  have fl: "\<And>rest. readFloats (myrows t * mycols t) (map TFloat (concat (rawdata t)) @ rest)
               = Inr (concat (rawdata t), rest)"
    using readFloats_written[of "concat (rawdata t)"] len by simp
  show ?case
    using tt cells fl FillFromRaw_written[OF wf]
    by (simp add: readRows_def readCols_def)
qed

text \<open>Reading back the stages: the items come without children.\<close>

lemma readStages_written:
  "readStages (k + length dl) (writeStages dl @ rest) acc
     = readStages k rest
         (acc @ map (\<lambda>i. \<lparr>level = level i, item = Item (itemData (item i)) []\<rparr>) dl)"
proof (induction dl arbitrary: acc)
  case Nil
  then show ?case by simp
next
  case (Cons i dl)
  from Cons.IH[of "acc @ [\<lparr>level = level i, item = Item (itemData (item i)) []\<rparr>]"]
  show ?case by simp
qed

lemma flat_Dump:
  "map (\<lambda>i. \<lparr>level = level i, item = Item (itemData (item i)) []\<rparr>) (Dump t n) = flat t n"
  by (induction t arbitrary: n) (simp add: map_concat comp_def cong: map_cong)
text \<open>
  The search for the parent: behind the last entry of level \<open>pl\<close> there are only
  entries of other levels.
\<close>

lemma findLast_none:
  "list_all (\<lambda>b. level b \<noteq> pl) B \<Longrightarrow> findLast pl B = None"
  by (induction B) simp_all

lemma findLast_append:
  assumes "level e = pl" and "list_all (\<lambda>b. level b \<noteq> pl) B"
  shows "findLast pl (A @ e # B) = Some (length A)"
  using assms by (induction A) (simp_all add: findLast_none)

lemma flat_levels: "list_all (\<lambda>b. n \<le> level b) (flat t n)"
proof (induction t arbitrary: n)
  case (Item d cs)
  have "list_all (\<lambda>b. n \<le> level b) (flat c (n + 1))" if "c \<in> set cs" for c
    using Item[OF that, of "n + 1"] by (auto simp: list_all_iff)
  then show ?case by (auto simp: list_all_iff)
qed

lemma flat_forest_levels:
  "list_all (\<lambda>b. level b \<noteq> n) (concat (map (\<lambda>c. flat c (n + 1)) cs))"
proof -
  have "list_all (\<lambda>b. level b \<noteq> n) (flat c (n + 1))" for c
    using flat_levels[of "n + 1" c] by (auto simp: list_all_iff)
  then show ?thesis by (auto simp: list_all_iff)
qed

text \<open>
  One round of the rebuilding loop: the last entry, a finished subtree \<open>c\<close> one level
  below the entry \<open>e\<close>, becomes the first child of \<open>e\<close>; between them there are only
  entries below \<open>e\<close>.
\<close>

lemma rebuild_attach:
  assumes "list_all (\<lambda>b. level b \<noteq> n) F"
  shows "rebuild (Suc k) ((P @ \<lparr>level = n, item = Item d acc\<rparr> # F) @ [\<lparr>level = n + 1, item = c\<rparr>])
           = rebuild k (P @ \<lparr>level = n, item = Item d (c # acc)\<rparr> # F)"
proof -
  define L where "L = P @ \<lparr>level = n, item = Item d acc\<rparr> # F"
  have found: "findLast n L = Some (length P)"
    unfolding L_def using assms by (intro findLast_append) simp_all
  have "rebuild (Suc k) (L @ [\<lparr>level = n + 1, item = c\<rparr>])
          = rebuild k (L[length P := insertChild0 c (L ! length P)])"
    using found by (simp add: Let_def)
  also have "L[length P := insertChild0 c (L ! length P)]
               = P @ \<lparr>level = n, item = Item d (c # acc)\<rparr> # F"
    by (simp add: L_def)
  finally show ?thesis by (simp add: L_def)
qed

text \<open>
  The entries of a subtree at the end of the list are consumed into the finished
  subtree, at the cost of one round per descendant.
\<close>

lemma rebuild_flat:
  "rebuild (k + length (flat t n)) (P @ flat t n)
     = rebuild (Suc k) (P @ [\<lparr>level = n, item = t\<rparr>])"
proof (induction t arbitrary: k n P)
  case (Item d cs)
  have forest:
    "rebuild (k + length (concat (map (\<lambda>c. flat c (n + 1)) cs')))
        (P @ \<lparr>level = n, item = Item d acc\<rparr> # concat (map (\<lambda>c. flat c (n + 1)) cs'))
       = rebuild k (P @ [\<lparr>level = n, item = Item d (cs' @ acc)\<rparr>])"
    if "set cs' \<subseteq> set cs" for cs' acc k
    using that
  proof (induction cs' arbitrary: acc k rule: rev_induct)
    case Nil
    then show ?case by simp
  next
    case (snoc c cs')
    let ?F = "concat (map (\<lambda>c. flat c (n + 1)) cs')"
    let ?e = "\<lparr>level = n, item = Item d acc\<rparr>"
    from snoc.prems have c: "c \<in> set cs" and sub: "set cs' \<subseteq> set cs" by simp_all
    have "rebuild (k + length (concat (map (\<lambda>c. flat c (n + 1)) (cs' @ [c]))))
            (P @ ?e # concat (map (\<lambda>c. flat c (n + 1)) (cs' @ [c])))
          = rebuild ((k + length ?F) + length (flat c (n + 1))) ((P @ ?e # ?F) @ flat c (n + 1))"
      by (simp add: add.assoc)
    also have "\<dots> = rebuild (Suc (k + length ?F)) ((P @ ?e # ?F) @ [\<lparr>level = n + 1, item = c\<rparr>])"
      by (rule Item.IH[OF c])
    also have "\<dots> = rebuild (k + length ?F) (P @ \<lparr>level = n, item = Item d (c # acc)\<rparr> # ?F)"
      by (rule rebuild_attach[OF flat_forest_levels])
    also have "\<dots> = rebuild k (P @ [\<lparr>level = n, item = Item d (cs' @ c # acc)\<rparr>])"
      by (rule snoc.IH[OF sub])
    finally show ?case by simp
  qed
  have "rebuild (k + length (flat (Item d cs) n)) (P @ flat (Item d cs) n)
          = rebuild (Suc k + length (concat (map (\<lambda>c. flat c (n + 1)) cs)))
              (P @ \<lparr>level = n, item = Item d []\<rparr> # concat (map (\<lambda>c. flat c (n + 1)) cs))"
    by simp
  also have "\<dots> = rebuild (Suc k) (P @ [\<lparr>level = n, item = Item d (cs @ [])\<rparr>])"
    by (rule forest) simp
  finally show ?case by simp
qed

text \<open>The entries read from a saved tree are rebuilt into that tree.\<close>

lemma rebuild_Dump:
  "rebuild (length (Dump t 0))
     (map (\<lambda>i. \<lparr>level = level i, item = Item (itemData (item i)) []\<rparr>) (Dump t 0)) = Inr [t]"
proof -
  have len: "length (Dump t 0) = length (flat t 0)"
    using flat_Dump[of t 0] by (metis length_map)
  have "rebuild (0 + length (flat t 0)) ([] @ flat t 0)
          = rebuild (Suc 0) ([] @ [\<lparr>level = 0, item = t\<rparr>])"
    by (rule rebuild_flat)
  then show ?thesis
    by (simp add: len flat_Dump Let_def)
qed

text \<open>What was saved is what is opened.\<close>

lemma openStream_saveStream:
  assumes "list_all table_wf tabs"
  shows "\<exists>stream. saveStream t tabs = Inr stream \<and> openStream stream = Inr ([t], tabs)"
proof -
  from readTables_written[OF assms] obtain tt where
    w: "writeTables tabs = Inr tt"
    and r: "\<And>rest. readTables (length tabs) (tt @ rest) = Inr (tabs, rest)"
    by blast
  let ?dl = "Dump t 0"
  let ?stream = "TInt (int (length ?dl)) # writeStages ?dl @ TInt (int (length tabs)) # tt"
  have s: "saveStream t tabs = Inr ?stream"
    using w by (simp add: saveStream_def Let_def)
  have st: "readStages (length ?dl) (writeStages ?dl @ TInt (int (length tabs)) # tt) []
              = Inr (map (\<lambda>i. \<lparr>level = level i, item = Item (itemData (item i)) []\<rparr>) ?dl,
                     TInt (int (length tabs)) # tt)"
    using readStages_written[of 0 ?dl "TInt (int (length tabs)) # tt" "[]"] by simp
  have "openStream ?stream = Inr ([t], tabs)"
    using st r[of "[]"] rebuild_Dump[of t] by (simp add: openStream_def)
  with s show ?thesis by blast
qed

text \<open>
  C5. A model with its one top-level item and tables of their shape is saved under its
  file name: the save succeeds and the file holds the stream of the model. Opening a
  file that holds this stream, from any window state whatever (with a saved model, or
  a user who declines to save it first), succeeds and leaves the tree that was saved
  (same shape, same data of every stage, same order of the following stages) and the
  tables that were saved (names, rows, columns and cells), marked saved and not
  checked. Nothing is asked of the saved model beyond its shape, so it holds in
  particular for every model that passes the check.
\<close>

theorem save_open_roundtrip:
  assumes "TreeWid s = [t]" and "list_all table_wf (Tables s)"
    and "FileName s \<noteq> []" and "canWrite u"
  shows "\<exists>s1 stream. saveStream t (Tables s) = Inr stream \<and>
           on_actionSave_triggered u s = Inr s1 \<and>
           files s1 (FileName s) = Some stream \<and>
           (\<forall>u' s'. (Saved s' \<or> saveBox u' = No) \<and> openName u' \<noteq> [] \<and>
                    files s' (openName u') = Some stream \<longrightarrow>
              (\<exists>s2. on_actionOpen_triggered u' s' = Inr s2 \<and>
                    TreeWid s2 = TreeWid s \<and> Tables s2 = Tables s \<and>
                    Saved s2 \<and> \<not> Checked s2))"
proof -
  from openStream_saveStream[OF assms(2), of t] obtain stream where
    sv: "saveStream t (Tables s) = Inr stream"
    and op: "openStream stream = Inr ([t], Tables s)"
    by blast
  let ?s1 = "setSaved True (s\<lparr>files := (files s)(FileName s \<mapsto> stream)\<rparr>)"
  have save: "on_actionSave_triggered u s = Inr ?s1"
    using assms(1,3,4) sv by (simp add: on_actionSave_triggered_def saveToFile_def)
  have written: "files ?s1 (FileName s) = Some stream"
    by simp
  have opened: "\<exists>s2. on_actionOpen_triggered u' s' = Inr s2 \<and>
                    TreeWid s2 = TreeWid s \<and> Tables s2 = Tables s \<and>
                    Saved s2 \<and> \<not> Checked s2"
    if "(Saved s' \<or> saveBox u' = No) \<and> openName u' \<noteq> [] \<and>
        files s' (openName u') = Some stream" for u' s'
  proof -
    from that have nosave: "Saved s' \<or> saveBox u' = No" and n: "openName u' \<noteq> []"
      and f: "files s' (openName u') = Some stream"
      by simp_all
    have "on_actionOpen_triggered u' s'
            = Inr (setChecked False (setSaved True
                    (s'\<lparr>TreeWid := [], hasCurrent := False, TreeWid := [t],
                        Tables := Tables s, NumTables := int (length (Tables s)),
                        CBCastings := map readName (Tables s),
                        FileName := openName u'\<rparr>)))"
      using nosave n f op by (auto simp: on_actionOpen_triggered_def)
    then show ?thesis using assms(1) by simp
  qed
  from sv save written opened show ?thesis by blast
qed

theorem save_open_roundtrip_witness:
  "saveStream (AddTreeChild (newItem ''Start'' ''Direct'' False) ''C'' ''Success'' False)
       (Tables checkedModel)
     = Inr [TInt 2,
            TInt 0, TItem \<lparr>text0 = ''Start'', text1 = ''Direct'', check2 = False, text3 = [],
                            userdata = None\<rparr>,
            TInt 1, TItem \<lparr>text0 = ''C'', text1 = ''Success'', check2 = False, text3 = [],
                            userdata = None\<rparr>,
            TInt 1, TString ''T'', TInt 1, TInt 2, TFloat (Fin 0), TFloat (Fin 0)] \<and>
   TreeWid freshWindow \<noteq> TreeWid checkedModel \<and> Tables freshWindow \<noteq> Tables checkedModel \<and>
   (\<exists>s2. on_actionOpen_triggered (quietUi\<lparr>openName := ''m.sxm''\<rparr>)
            (freshWindow\<lparr>files := [''m.sxm'' \<mapsto>
               [TInt 2,
                TInt 0, TItem \<lparr>text0 = ''Start'', text1 = ''Direct'', check2 = False,
                                text3 = [], userdata = None\<rparr>,
                TInt 1, TItem \<lparr>text0 = ''C'', text1 = ''Success'', check2 = False,
                                text3 = [], userdata = None\<rparr>,
                TInt 1, TString ''T'', TInt 1, TInt 2, TFloat (Fin 0), TFloat (Fin 0)]]\<rparr>)
          = Inr s2 \<and>
      TreeWid s2 = TreeWid checkedModel \<and> Tables s2 = Tables checkedModel \<and>
      Saved s2 \<and> \<not> Checked s2)"
proof -
  let ?t = "AddTreeChild (newItem ''Start'' ''Direct'' False) ''C'' ''Success'' False"
  let ?u = "quietUi\<lparr>openName := ''m.sxm''\<rparr>"
  let ?stream = "[TInt 2,
            TInt 0, TItem \<lparr>text0 = ''Start'', text1 = ''Direct'', check2 = False, text3 = [],
                            userdata = None\<rparr>,
            TInt 1, TItem \<lparr>text0 = ''C'', text1 = ''Success'', check2 = False, text3 = [],
                            userdata = None\<rparr>,
            TInt 1, TString ''T'', TInt 1, TInt 2, TFloat (Fin 0), TFloat (Fin 0)]"
  let ?s' = "freshWindow\<lparr>files := [''m.sxm'' \<mapsto> ?stream]\<rparr>"
  have tw: "TreeWid checkedModel = [?t]"
    by (simp add: checkedModel_def Stox_new_def)
  have wf: "list_all table_wf (Tables checkedModel)"
    by (simp add: checkedModel_def Stox_new_def FillZeroes_def TableModel_new_def table_wf_def)
  have fn: "FileName checkedModel \<noteq> []" and cw: "canWrite ?u"
    by (simp_all add: checkedModel_def Stox_new_def quietUi_def)
  have stream: "saveStream ?t (Tables checkedModel) = Inr ?stream"
    by (simp add: saveStream_def checkedModel_def Stox_new_def newItem_def FillZeroes_def
          TableModel_new_def readRows_def readCols_def readName_def readCell_def Let_def
          numeral_2_eq_2)
  have other: "TreeWid freshWindow \<noteq> TreeWid checkedModel"
    "Tables freshWindow \<noteq> Tables checkedModel"
    by (simp_all add: freshWindow_def checkedModel_def Stox_new_def StartItem_def newItem_def)
  have pre: "(Saved ?s' \<or> saveBox ?u = No) \<and> openName ?u \<noteq> [] \<and>
             files ?s' (openName ?u) = Some ?stream"
    by (simp add: freshWindow_def Stox_new_def quietUi_def)
  from save_open_roundtrip[OF tw wf fn cw] obtain s1 str where
    str: "saveStream ?t (Tables checkedModel) = Inr str"
    and all: "\<forall>u' s'. (Saved s' \<or> saveBox u' = No) \<and> openName u' \<noteq> [] \<and>
                    files s' (openName u') = Some str \<longrightarrow>
              (\<exists>s2. on_actionOpen_triggered u' s' = Inr s2 \<and>
                    TreeWid s2 = TreeWid checkedModel \<and> Tables s2 = Tables checkedModel \<and>
                    Saved s2 \<and> \<not> Checked s2)"
    by blast
  from str stream have "str = ?stream" by simp
  with all pre have "\<exists>s2. on_actionOpen_triggered ?u ?s' = Inr s2 \<and>
                    TreeWid s2 = TreeWid checkedModel \<and> Tables s2 = Tables checkedModel \<and>
                    Saved s2 \<and> \<not> Checked s2"
    by blast
  with stream other show ?thesis by blast
qed

end
